theory Spec2Isabelle
  imports Complex_Main
begin

section \<open>Element Helper: debounce and throttle over an explicit timer queue\<close>

text \<open>
  Time is in milliseconds. A pending timer is a triple: the handle \<open>setTimeout\<close> returned,
  the time it is due, and the arguments its callback closed over. The wrapped function
  \<open>func\<close> is opaque: each call of it is logged with the time of the call and its arguments.
  A timer that is due at the millisecond of an invocation runs before that invocation.
\<close>

type_synonym 'a timer = "nat \<times> nat \<times> 'a"

definition clearTimeout :: "nat option \<Rightarrow> 'a timer list \<Rightarrow> 'a timer list" where
  "clearTimeout h ts = (case h of None \<Rightarrow> ts | Some k \<Rightarrow> filter (\<lambda>t. fst t \<noteq> k) ts)"

text \<open>The earliest pending timer that is due at \<open>now\<close>; among equals, the one set first.\<close>

fun next_due :: "nat \<Rightarrow> 'a timer list \<Rightarrow> 'a timer option" where
  "next_due now [] = None"
| "next_due now (t # ts) =
     (case next_due now ts of
        None \<Rightarrow> (if fst (snd t) \<le> now then Some t else None)
      | Some u \<Rightarrow> (if fst (snd t) \<le> fst (snd u) then Some t else Some u))"

lemma length_clearTimeout: "length (clearTimeout h ts) \<le> length ts"
  by (simp add: clearTimeout_def split: option.split)

lemma next_due_mem: "next_due now ts = Some t \<Longrightarrow> t \<in> set ts"
  by (induction ts arbitrary: t) (auto split: option.splits if_splits)

subsection \<open>debounce\<close>

text \<open>
  The closure of \<open>debounce(func, wait)\<close>: its variable \<open>timeout\<close> (undefined at first),
  with the browser's timer queue and the log of the calls of \<open>func\<close>.
\<close>

record 'a debounced =
  wait :: nat
  timeout :: "nat option"
  pending :: "'a timer list"
  next_handle :: nat
  fired :: "(nat \<times> 'a) list"

definition debounce :: "nat \<Rightarrow> 'a debounced" where
  "debounce w = \<lparr>wait = w, timeout = None, pending = [], next_handle = 0, fired = []\<rparr>"

text \<open>The timer callback \<open>later\<close>: \<open>clearTimeout(timeout); func(...args)\<close>.\<close>

definition later :: "'a timer \<Rightarrow> 'a debounced \<Rightarrow> 'a debounced" where
  "later t s =
     s\<lparr>pending := clearTimeout (timeout s) (pending s),
       fired := fired s @ [(fst (snd t), snd (snd t))]\<rparr>"

text \<open>The event loop up to \<open>now\<close>: each due timer leaves the queue and runs its callback.\<close>

function run_timers :: "nat \<Rightarrow> 'a debounced \<Rightarrow> 'a debounced" where
  "run_timers now s =
     (case next_due now (pending s) of
        None \<Rightarrow> s
      | Some t \<Rightarrow>
          run_timers now (later t (s\<lparr>pending := filter (\<lambda>u. fst u \<noteq> fst t) (pending s)\<rparr>)))"
  by pat_completeness auto
termination
proof (relation "measure (\<lambda>(now, s). length (pending s))")
  show "wf (measure (\<lambda>(now, s). length (pending s)))" by simp
next
  fix now :: nat and s :: "'a debounced" and t :: "'a timer"
  assume "next_due now (pending s) = Some t"
  then have "t \<in> set (pending s)" by (rule next_due_mem)
  then have "length (filter (\<lambda>u. fst u \<noteq> fst t) (pending s)) < length (pending s)"
    by (intro length_filter_less[of t]) auto
  then have "length (clearTimeout (timeout s) (filter (\<lambda>u. fst u \<noteq> fst t) (pending s)))
      < length (pending s)"
    by (rule le_less_trans[OF length_clearTimeout])
  then show "((now, later t (s\<lparr>pending := filter (\<lambda>u. fst u \<noteq> fst t) (pending s)\<rparr>)), (now, s))
      \<in> measure (\<lambda>(now, s). length (pending s))"
    by (simp add: later_def)
qed

declare run_timers.simps [simp del]

text \<open>
  \<open>executedFunction(...args)\<close> called at time \<open>now\<close>:
  \<open>clearTimeout(timeout); timeout = setTimeout(later, wait)\<close>.
\<close>

definition debounce_executedFunction :: "nat \<Rightarrow> 'a \<Rightarrow> 'a debounced \<Rightarrow> 'a debounced" where
  "debounce_executedFunction now args s0 =
     (let s = run_timers now s0 in
      s\<lparr>pending := clearTimeout (timeout s) (pending s) @ [(next_handle s, now + wait s, args)],
        timeout := Some (next_handle s),
        next_handle := Suc (next_handle s)\<rparr>)"

text \<open>All timers still pending run at their due times.\<close>

definition flush :: "'a debounced \<Rightarrow> 'a debounced" where
  "flush s = run_timers (fold max (map (\<lambda>t. fst (snd t)) (pending s)) 0) s"

text \<open>The calls of \<open>func\<close> that a sequence of invocations (time, arguments) produces.\<close>

definition run_debounce :: "nat \<Rightarrow> (nat \<times> 'a) list \<Rightarrow> (nat \<times> 'a) list" where
  "run_debounce w invocations =
     fired (flush (fold (\<lambda>(now, args). debounce_executedFunction now args) invocations (debounce w)))"

text \<open>
  The closure's invariant: at most one timer is pending, and when one is, \<open>timeout\<close> holds
  its handle.
\<close>

definition single_pending :: "'a debounced \<Rightarrow> bool" where
  "single_pending s =
     (case pending s of
        [] \<Rightarrow> True
      | [t] \<Rightarrow> timeout s = Some (fst t)
      | _ \<Rightarrow> False)"

subsection \<open>throttle\<close>

text \<open>
  The closure of \<open>throttle(func, limit)\<close>: its variable \<open>inThrottle\<close> (undefined, so falsy,
  at first), the due times of the pending reset timers, and the log of the calls of \<open>func\<close>.
\<close>

record 'a throttled =
  limit :: nat
  inThrottle :: bool
  resets :: "nat list"
  calls :: "(nat \<times> 'a) list"

definition throttle :: "nat \<Rightarrow> 'a throttled" where
  "throttle l = \<lparr>limit = l, inThrottle = False, resets = [], calls = []\<rparr>"

text \<open>The event loop up to \<open>now\<close>: every due timer runs \<open>inThrottle = false\<close>.\<close>

definition run_resets :: "nat \<Rightarrow> 'a throttled \<Rightarrow> 'a throttled" where
  "run_resets now s =
     (if \<exists>d \<in> set (resets s). d \<le> now
      then s\<lparr>inThrottle := False, resets := filter (\<lambda>d. now < d) (resets s)\<rparr>
      else s)"

definition throttle_executedFunction :: "nat \<Rightarrow> 'a \<Rightarrow> 'a throttled \<Rightarrow> 'a throttled" where
  "throttle_executedFunction now args s0 =
     (let s = run_resets now s0 in
      if \<not> inThrottle s
      then s\<lparr>calls := calls s @ [(now, args)],
             inThrottle := True,
             resets := resets s @ [now + limit s]\<rparr>
      else s)"

definition run_throttle :: "nat \<Rightarrow> (nat \<times> 'a) list \<Rightarrow> (nat \<times> 'a) list" where
  "run_throttle l invocations =
     calls (fold (\<lambda>(now, args). throttle_executedFunction now args) invocations (throttle l))"

section \<open>The DOM as a value\<close>

text \<open>
  An element has a tag name, a class list, attributes (the \<open>dataset\<close> entries are the
  attributes named \<open>data-...\<close>) and child nodes; a text node has its data. What throws in
  the browser is an error value here.
\<close>

datatype node =
    Text string
  | Element string "string list" "(string \<times> string) list" "node list"

datatype error = TypeError | HierarchyRequestError

fun decimal :: "nat \<Rightarrow> string" where
  "decimal n =
     (if n < 10 then [''0123456789'' ! n]
      else decimal (n div 10) @ [''0123456789'' ! (n mod 10)])"

declare decimal.simps [simp del]

text \<open>
  \<open>className = "a b"\<close> gives the class list \<open>[a, b]\<close>: the tokens between ASCII white
  space, each kept where it first occurs.
\<close>

definition is_ascii_space :: "char \<Rightarrow> bool" where
  "is_ascii_space c = ((of_char c :: nat) \<in> {9, 10, 12, 13, 32})"

fun class_tokens :: "string \<Rightarrow> string \<Rightarrow> string list" where
  "class_tokens acc [] = (if acc = [] then [] else [acc])"
| "class_tokens acc (c # cs) =
     (if is_ascii_space c then (if acc = [] then class_tokens [] cs else acc # class_tokens [] cs)
      else class_tokens (acc @ [c]) cs)"

definition classList_of :: "string \<Rightarrow> string list" where
  "classList_of className = rev (remdups (rev (class_tokens [] className)))"

fun setAttribute :: "string \<Rightarrow> string \<Rightarrow> (string \<times> string) list \<Rightarrow> (string \<times> string) list" where
  "setAttribute k v [] = [(k, v)]"
| "setAttribute k v ((k', v') # kvs) =
     (if k' = k then (k, v) # kvs else (k', v') # setAttribute k v kvs)"

text \<open>\<open>createElement(tagName, className = '', attributes = {})\<close>.\<close>

definition createElement :: "string \<Rightarrow> string \<Rightarrow> (string \<times> string) list \<Rightarrow> node" where
  "createElement tagName className attributes =
     Element tagName (classList_of className) (fold (\<lambda>(k, v). setAttribute k v) attributes []) []"

definition createTextNode :: "string \<Rightarrow> node" where
  "createTextNode t = Text t"

text \<open>
  \<open>appendChildren(parent, ...children)\<close> and \<open>parent.appendChild(fragment)\<close>: the children
  are added after the parent's own.
\<close>

fun appendChildren :: "node \<Rightarrow> node list \<Rightarrow> node" where
  "appendChildren (Element t cl atts ch) children = Element t cl atts (ch @ children)"
| "appendChildren (Text d) children = Text d"

fun set_dataset :: "string \<Rightarrow> string \<Rightarrow> node \<Rightarrow> node" where
  "set_dataset k v (Element t cl atts ch) = Element t cl (setAttribute (''data-'' @ k) v atts) ch"
| "set_dataset k v (Text d) = Text d"

fun set_href :: "string \<Rightarrow> node \<Rightarrow> node" where
  "set_href v (Element t cl atts ch) = Element t cl (setAttribute ''href'' v atts) ch"
| "set_href v (Text d) = Text d"

fun getAttribute :: "string \<Rightarrow> node \<Rightarrow> string option" where
  "getAttribute k (Element t cl atts ch) = map_of atts k"
| "getAttribute k (Text d) = None"

fun childNodes :: "node \<Rightarrow> node list" where
  "childNodes (Element t cl atts ch) = ch"
| "childNodes (Text d) = []"

fun textContent :: "node \<Rightarrow> string" where
  "textContent (Text d) = d"
| "textContent (Element t cl atts ch) = concat (map textContent ch)"

text \<open>
  The selectors the renderers use are a class selector \<open>.name\<close> or a tag name.
\<close>

fun selector_matches :: "string \<Rightarrow> node \<Rightarrow> bool" where
  "selector_matches sel (Text d) = False"
| "selector_matches sel (Element t cl atts ch) =
     (case sel of
        [] \<Rightarrow> False
      | c # name \<Rightarrow> if c = CHR ''.'' then name \<in> set cl else sel = t)"

text \<open>\<open>querySelector\<close> among the descendants: the first match in document order.\<close>

fun query_first :: "string \<Rightarrow> node list \<Rightarrow> node option" where
  "query_first sel [] = None"
| "query_first sel (Text d # ns) = query_first sel ns"
| "query_first sel (Element t cl atts ch # ns) =
     (if selector_matches sel (Element t cl atts ch) then Some (Element t cl atts ch)
      else case query_first sel ch of
             Some m \<Rightarrow> Some m
           | None \<Rightarrow> query_first sel ns)"

definition querySelector :: "string \<Rightarrow> node \<Rightarrow> node option" where
  "querySelector sel n = query_first sel (childNodes n)"

text \<open>
  A mutation of the element \<open>querySelector\<close> returns: the tree with \<open>f\<close> applied at the first
  match, \<open>None\<close> when nothing matches.
\<close>

fun update_first :: "string \<Rightarrow> (node \<Rightarrow> node) \<Rightarrow> node list \<Rightarrow> node list option" where
  "update_first sel f [] = None"
| "update_first sel f (Text d # ns) = map_option ((#) (Text d)) (update_first sel f ns)"
| "update_first sel f (Element t cl atts ch # ns) =
     (if selector_matches sel (Element t cl atts ch) then Some (f (Element t cl atts ch) # ns)
      else case update_first sel f ch of
             Some ch' \<Rightarrow> Some (Element t cl atts ch' # ns)
           | None \<Rightarrow> map_option ((#) (Element t cl atts ch)) (update_first sel f ns))"

text \<open>
  \<open>const slot = el.querySelector(sel); ... slot.f(...)\<close>: a \<open>TypeError\<close> when the slot is
  null (or \<open>el\<close> is undefined).
\<close>

fun with_slot :: "string \<Rightarrow> (node \<Rightarrow> node) \<Rightarrow> node \<Rightarrow> error + node" where
  "with_slot sel f (Element t cl atts ch) =
     (case update_first sel f ch of
        None \<Rightarrow> Inl TypeError
      | Some ch' \<Rightarrow> Inr (Element t cl atts ch'))"
| "with_slot sel f (Text d) = Inl TypeError"

definition append_text :: "string \<Rightarrow> node \<Rightarrow> node" where
  "append_text t n = appendChildren n [createTextNode t]"

definition and_then :: "error + 'a \<Rightarrow> ('a \<Rightarrow> error + 'b) \<Rightarrow> error + 'b" where
  "and_then r f = (case r of Inl e \<Rightarrow> Inl e | Inr x \<Rightarrow> f x)"

section \<open>Template Renderer\<close>

record feature =
  feature_icon :: string
  feature_title :: string
  feature_description :: string

record stat =
  stat_number :: string
  stat_suffix :: "string option"
  stat_label :: string

record event =
  event_type :: string
  event_title :: string
  event_description :: string
  event_date :: string

record contact =
  contact_icon :: string
  contact_title :: string
  contact_value :: string
  contact_description :: string

record link =
  link_text :: string
  link_url :: string

record footer_section =
  section_title :: string
  section_links :: "link list"

text \<open>\<open>createTemplates\<close>: the skeletons of the constructor, by name.\<close>

definition createTemplates :: "(string \<times> node) list" where
  "createTemplates =
     [(''feature-card'',
        appendChildren (createElement ''div'' ''feature-card reveal'' [])
          [createElement ''div'' ''feature-icon'' [],
           createElement ''h3'' ''feature-title'' [],
           createElement ''p'' ''feature-description'' []]),
      (''stat-card'',
        appendChildren (createElement ''div'' ''stat-card reveal'' [])
          [createElement ''div'' ''stat-number'' [],
           createElement ''div'' ''stat-label'' []]),
      (''event-item'',
        appendChildren (createElement ''div'' ''event-item reveal'' [])
          [appendChildren (createElement ''div'' ''event-content'' [])
             [appendChildren (createElement ''div'' ''event-card'' [])
                [createElement ''div'' ''event-type'' [],
                 createElement ''h3'' ''event-title'' [],
                 createElement ''p'' ''event-description'' []]],
           appendChildren (createElement ''div'' ''event-date'' [])
             [createElement ''div'' ''event-day'' [],
              createElement ''div'' ''event-month'' []]]),
      (''contact-item'',
        appendChildren (createElement ''div'' ''contact-item reveal'' [])
          [createElement ''div'' ''contact-icon'' [],
           appendChildren (createElement ''div'' ''contact-details'' [])
             [createElement ''h4'' '''' [],
              createElement ''div'' ''contact-value'' [],
              createElement ''div'' ''contact-description'' []]]),
      (''footer-section'',
        appendChildren (createElement ''div'' ''footer-section'' [])
          [createElement ''h3'' '''' [],
           createElement ''div'' ''footer-nav'' []])]"

text \<open>\<open>domManager.cloneNode(this.templates.get(name))\<close>: a \<open>TypeError\<close> on an unknown name.\<close>

definition clone_template :: "(string \<times> node) list \<Rightarrow> string \<Rightarrow> error + node" where
  "clone_template templates name =
     (case map_of templates name of None \<Rightarrow> Inl TypeError | Some n \<Rightarrow> Inr n)"

text \<open>
  The loop \<open>records.forEach((record, index) => { ...; fragment.appendChild(card) })\<close>: the
  fragment's children, or the first error a body throws.
\<close>

fun forEach_fragment :: "(nat \<Rightarrow> 'r \<Rightarrow> error + node) \<Rightarrow> nat \<Rightarrow> 'r list \<Rightarrow> error + node list" where
  "forEach_fragment body index [] = Inr []"
| "forEach_fragment body index (r # rs) =
     and_then (body index r) (\<lambda>card.
     and_then (forEach_fragment body (Suc index) rs) (\<lambda>cards. Inr (card # cards)))"

text \<open>
  \<open>if (!container || !records) return; ...; container.appendChild(fragment)\<close>. The result is
  the container after the call.
\<close>

definition render_into :: "(nat \<Rightarrow> 'r \<Rightarrow> error + node) \<Rightarrow> 'r list option \<Rightarrow> node option \<Rightarrow> error + node option" where
  "render_into body records container =
     (case container of
        None \<Rightarrow> Inr container
      | Some c \<Rightarrow>
          (case records of
             None \<Rightarrow> Inr container
           | Some rs \<Rightarrow>
               and_then (forEach_fragment body 0 rs) (\<lambda>cards.
               case c of
                 Text d \<Rightarrow> Inl HierarchyRequestError
               | Element t cl atts ch \<Rightarrow> Inr (Some (appendChildren c cards)))))"

definition feature_card :: "(string \<times> node) list \<Rightarrow> nat \<Rightarrow> feature \<Rightarrow> error + node" where
  "feature_card templates index f =
     and_then (clone_template templates ''feature-card'') (\<lambda>card.
     and_then (with_slot ''.feature-icon'' (append_text (feature_icon f)) card) (\<lambda>card.
     and_then (with_slot ''.feature-title'' (append_text (feature_title f)) card) (\<lambda>card.
     and_then (with_slot ''.feature-description'' (append_text (feature_description f)) card) (\<lambda>card.
     Inr (set_dataset ''stagger'' (decimal index) card)))))"

definition renderFeatures :: "(string \<times> node) list \<Rightarrow> feature list option \<Rightarrow> node option \<Rightarrow> error + node option" where
  "renderFeatures templates features container =
     render_into (feature_card templates) features container"

text \<open>\<open>stat.suffix || ''\<close>: an absent or empty suffix is the empty string.\<close>

definition suffix_or_empty :: "stat \<Rightarrow> string" where
  "suffix_or_empty s = (case stat_suffix s of None \<Rightarrow> [] | Some x \<Rightarrow> x)"

definition stat_card :: "(string \<times> node) list \<Rightarrow> nat \<Rightarrow> stat \<Rightarrow> error + node" where
  "stat_card templates index s =
     and_then (clone_template templates ''stat-card'') (\<lambda>card.
     and_then (with_slot ''.stat-number''
                 (\<lambda>numberEl. append_text (''0'' @ suffix_or_empty s)
                    (set_dataset ''suffix'' (suffix_or_empty s)
                      (set_dataset ''target'' (stat_number s) numberEl))) card) (\<lambda>card.
     and_then (with_slot ''.stat-label'' (append_text (stat_label s)) card) (\<lambda>card.
     Inr (set_dataset ''stagger'' (decimal index) card))))"

text \<open>
  A pending \<open>setTimeout(() => this.setupCounterAnimation(numberEl, target), delay)\<close>: the
  delay, the index of the card whose number element it closes over, and the target text.
\<close>

record counter_timeout =
  ct_delay :: nat
  ct_card :: nat
  ct_target :: string

text \<open>
  The loop of \<open>renderStats\<close>: the fragment's children or the first error, with the timeouts
  the iterations before it have set.
\<close>

fun stats_forEach :: "(string \<times> node) list \<Rightarrow> nat \<Rightarrow> stat list \<Rightarrow> (error + node list) \<times> counter_timeout list" where
  "stats_forEach templates index [] = (Inr [], [])"
| "stats_forEach templates index (s # ss) =
     (case stat_card templates index s of
        Inl e \<Rightarrow> (Inl e, [])
      | Inr statCard \<Rightarrow>
          (case stats_forEach templates (Suc index) ss of
             (r, ts) \<Rightarrow>
               (and_then r (\<lambda>cards. Inr (statCard # cards)),
                \<lparr>ct_delay = index * 200, ct_card = index,
                  ct_target = stat_number s @ suffix_or_empty s\<rparr> # ts)))"

text \<open>The result is the container after the call and the timeouts pending after it.\<close>

definition renderStats :: "(string \<times> node) list \<Rightarrow> stat list option \<Rightarrow> node option \<Rightarrow> counter_timeout list \<Rightarrow> (error + node option) \<times> counter_timeout list" where
  "renderStats templates stats container timeouts =
     (case container of
        None \<Rightarrow> (Inr container, timeouts)
      | Some c \<Rightarrow>
          (case stats of
             None \<Rightarrow> (Inr container, timeouts)
           | Some ss \<Rightarrow>
               (case stats_forEach templates 0 ss of
                  (r, ts) \<Rightarrow>
                    (and_then r (\<lambda>cards.
                       case c of
                         Text d \<Rightarrow> Inl HierarchyRequestError
                       | Element t cl atts ch \<Rightarrow> Inr (Some (appendChildren c cards))),
                     timeouts @ ts))))"

text \<open>
  \<open>new Date(event.date)\<close> belongs to the environment: \<open>parse_date\<close> gives the day of the
  month and the short English month name in the local time zone, \<open>None\<close> for an invalid date.
  \<open>toUpperCase\<close> maps the ASCII letters, the only ones in those names.
\<close>

definition padStart2 :: "string \<Rightarrow> string" where
  "padStart2 s = replicate (2 - length s) (CHR ''0'') @ s"

definition toUpperCase :: "string \<Rightarrow> string" where
  "toUpperCase s =
     map (\<lambda>c. if 97 \<le> (of_char c :: nat) \<and> (of_char c :: nat) \<le> 122
              then char_of ((of_char c :: nat) - 32) else c) s"

definition event_day :: "(string \<Rightarrow> (nat \<times> string) option) \<Rightarrow> event \<Rightarrow> string" where
  "event_day parse_date e =
     padStart2 (case parse_date (event_date e) of None \<Rightarrow> ''NaN'' | Some (d, m) \<Rightarrow> decimal d)"

definition event_month :: "(string \<Rightarrow> (nat \<times> string) option) \<Rightarrow> event \<Rightarrow> string" where
  "event_month parse_date e =
     toUpperCase (case parse_date (event_date e) of None \<Rightarrow> ''Invalid Date'' | Some (d, m) \<Rightarrow> m)"

definition event_item :: "(string \<Rightarrow> (nat \<times> string) option) \<Rightarrow> (string \<times> node) list \<Rightarrow> nat \<Rightarrow> event \<Rightarrow> error + node" where
  "event_item parse_date templates index e =
     and_then (clone_template templates ''event-item'') (\<lambda>item.
     and_then (with_slot ''.event-type'' (append_text (event_type e)) item) (\<lambda>item.
     and_then (with_slot ''.event-title'' (append_text (event_title e)) item) (\<lambda>item.
     and_then (with_slot ''.event-description'' (append_text (event_description e)) item) (\<lambda>item.
     and_then (with_slot ''.event-day'' (append_text (event_day parse_date e)) item) (\<lambda>item.
     and_then (with_slot ''.event-month'' (append_text (event_month parse_date e)) item) (\<lambda>item.
     Inr (set_dataset ''stagger'' (decimal index) item)))))))"

definition renderEvents :: "(string \<Rightarrow> (nat \<times> string) option) \<Rightarrow> (string \<times> node) list \<Rightarrow> event list option \<Rightarrow> node option \<Rightarrow> error + node option" where
  "renderEvents parse_date templates events container =
     render_into (event_item parse_date templates) events container"

definition contact_item :: "(string \<times> node) list \<Rightarrow> nat \<Rightarrow> contact \<Rightarrow> error + node" where
  "contact_item templates index c =
     and_then (clone_template templates ''contact-item'') (\<lambda>item.
     and_then (with_slot ''.contact-icon'' (append_text (contact_icon c)) item) (\<lambda>item.
     and_then (with_slot ''h4'' (append_text (contact_title c)) item) (\<lambda>item.
     and_then (with_slot ''.contact-value'' (append_text (contact_value c)) item) (\<lambda>item.
     and_then (with_slot ''.contact-description'' (append_text (contact_description c)) item) (\<lambda>item.
     Inr (set_dataset ''stagger'' (decimal index) item))))))"

definition renderContactInfo :: "(string \<times> node) list \<Rightarrow> contact list option \<Rightarrow> node option \<Rightarrow> error + node option" where
  "renderContactInfo templates contactData container =
     render_into (contact_item templates) contactData container"

text \<open>
  \<open>section.links.forEach(link => { ...; navEl.appendChild(linkEl) })\<close>: \<open>navEl\<close> is
  dereferenced once per link.
\<close>

definition link_element :: "link \<Rightarrow> node" where
  "link_element l = append_text (link_text l) (set_href (link_url l) (createElement ''a'' '''' []))"

fun append_links :: "link list \<Rightarrow> node \<Rightarrow> error + node" where
  "append_links [] sectionEl = Inr sectionEl"
| "append_links (l # ls) sectionEl =
     and_then (with_slot ''.footer-nav'' (\<lambda>navEl. appendChildren navEl [link_element l]) sectionEl)
       (append_links ls)"

definition footer_section_el :: "(string \<times> node) list \<Rightarrow> nat \<Rightarrow> footer_section \<Rightarrow> error + node" where
  "footer_section_el templates index s =
     and_then (clone_template templates ''footer-section'') (\<lambda>sectionEl.
     and_then (with_slot ''h3'' (append_text (section_title s)) sectionEl) (\<lambda>sectionEl.
     append_links (section_links s) sectionEl))"

definition renderFooterLinks :: "(string \<times> node) list \<Rightarrow> footer_section list option \<Rightarrow> node option \<Rightarrow> error + node option" where
  "renderFooterLinks templates footerData container =
     render_into (footer_section_el templates) footerData container"

section \<open>JavaScript primitives\<close>

text \<open>
  Strings are lists of 8-bit characters. White space (\<open>\s\<close>, \<open>trim\<close>, \<open>parseInt\<close>) is tab, line
  feed, vertical tab, form feed, carriage return, space and no-break space; the white space
  beyond Latin-1 has no character here.
\<close>

definition is_space :: "char \<Rightarrow> bool" where
  "is_space c = ((of_char c :: nat) \<in> {9, 10, 11, 12, 13, 32, 160})"

definition is_digit :: "char \<Rightarrow> bool" where
  "is_digit c = (48 \<le> (of_char c :: nat) \<and> (of_char c :: nat) \<le> 57)"

definition digit_value :: "char \<Rightarrow> nat" where
  "digit_value c = (of_char c :: nat) - 48"

definition is_hex_digit :: "char \<Rightarrow> bool" where
  "is_hex_digit c =
     (is_digit c \<or> (65 \<le> (of_char c :: nat) \<and> (of_char c :: nat) \<le> 70)
      \<or> (97 \<le> (of_char c :: nat) \<and> (of_char c :: nat) \<le> 102))"

definition hex_value :: "char \<Rightarrow> nat" where
  "hex_value c =
     (if is_digit c then digit_value c
      else if (of_char c :: nat) \<le> 70 then (of_char c :: nat) - 55
      else (of_char c :: nat) - 87)"

definition digits_value :: "nat \<Rightarrow> (char \<Rightarrow> nat) \<Rightarrow> string \<Rightarrow> nat" where
  "digits_value radix val ds = fold (\<lambda>c acc. acc * radix + val c) ds 0"

text \<open>
  \<open>parseInt(s)\<close> with no radix: leading white space and one sign are skipped, a prefix
  \<open>0x\<close> or \<open>0X\<close> selects radix 16, and the longest prefix of digits is read; \<open>None\<close> is NaN.
  The value is the exact integer (a double rounds it beyond 2^53).
\<close>

definition parseInt :: "string \<Rightarrow> int option" where
  "parseInt s =
     (let t = dropWhile is_space s;
          neg = (take 1 t = ''-'');
          u = (if take 1 t = ''-'' \<or> take 1 t = ''+'' then drop 1 t else t);
          hex = (take 2 u = ''0x'' \<or> take 2 u = ''0X'');
          ds = (if hex then takeWhile is_hex_digit (drop 2 u) else takeWhile is_digit u);
          n = (if hex then digits_value 16 hex_value ds else digits_value 10 digit_value ds)
      in if ds = [] then None
         else Some (if neg then - int n else int n))"

definition show_int :: "int \<Rightarrow> string" where
  "show_int i = (if i < 0 then ''-'' @ decimal (nat (- i)) else decimal (nat i))"









section \<open>Motion Controller\<close>

text \<open>
  What the motion code reads and writes of an element: its class list, \<open>dataset.stagger\<close>,
  the inline styles \<open>opacity\<close>, \<open>transform\<close>, \<open>transition\<close> and \<open>transitionDelay\<close>, and its text.
\<close>

record element =
  el_classList :: "string list"
  el_stagger :: "string option"
  el_opacity :: string
  el_transform :: string
  el_transition :: string
  el_transitionDelay :: string
  el_textContent :: string

text \<open>\<open>domManager.addClass\<close> and \<open>removeClass\<close>: nothing for an empty class name.\<close>

definition addClass :: "string \<Rightarrow> element \<Rightarrow> element" where
  "addClass className el =
     (if className = [] \<or> className \<in> set (el_classList el) then el
      else el\<lparr>el_classList := el_classList el @ [className]\<rparr>)"

definition removeClass :: "string \<Rightarrow> element \<Rightarrow> element" where
  "removeClass className el =
     (if className = [] then el
      else el\<lparr>el_classList := filter (\<lambda>c. c \<noteq> className) (el_classList el)\<rparr>)"

text \<open>
  The outcome of a one-shot effect: the element when the call returns, the callbacks it
  passed to \<open>requestAnimationFrame\<close>, and the timeouts it set (delay and callback).
\<close>

record effect =
  ef_element :: element
  ef_frames :: "(element \<Rightarrow> element) list"
  ef_timeouts :: "(nat \<times> (element \<Rightarrow> element)) list"

definition fadeIn :: "bool \<Rightarrow> nat \<Rightarrow> element \<Rightarrow> effect" where
  "fadeIn isReducedMotion duration el =
     (if isReducedMotion
      then \<lparr>ef_element = el\<lparr>el_opacity := ''1''\<rparr>, ef_frames = [], ef_timeouts = []\<rparr>
      else \<lparr>ef_element = el\<lparr>el_opacity := ''0'',
                               el_transition := ''opacity '' @ decimal duration @ ''ms ease''\<rparr>,
             ef_frames = [\<lambda>e. e\<lparr>el_opacity := ''1''\<rparr>],
             ef_timeouts = []\<rparr>)"

text \<open>The timeout of \<open>fadeOut\<close> resolves the promise; it leaves the element as it is.\<close>

definition fadeOut :: "bool \<Rightarrow> nat \<Rightarrow> element \<Rightarrow> effect" where
  "fadeOut isReducedMotion duration el =
     (if isReducedMotion
      then \<lparr>ef_element = el\<lparr>el_opacity := ''0''\<rparr>, ef_frames = [], ef_timeouts = []\<rparr>
      else \<lparr>ef_element = el\<lparr>el_transition := ''opacity '' @ decimal duration @ ''ms ease'',
                               el_opacity := ''0''\<rparr>,
             ef_frames = [],
             ef_timeouts = [(duration, \<lambda>e. e)]\<rparr>)"

definition slideUp :: "bool \<Rightarrow> nat \<Rightarrow> element \<Rightarrow> effect" where
  "slideUp isReducedMotion duration el =
     (if isReducedMotion
      then \<lparr>ef_element = addClass ''active'' el, ef_frames = [], ef_timeouts = []\<rparr>
      else \<lparr>ef_element = el\<lparr>el_transform := ''translateY(30px)'',
                               el_opacity := ''0'',
                               el_transition := ''all '' @ decimal duration @ ''ms ease''\<rparr>,
             ef_frames = [\<lambda>e. e\<lparr>el_transform := ''translateY(0)'', el_opacity := ''1''\<rparr>],
             ef_timeouts = []\<rparr>)"

text \<open>\<open>fromScale\<close> and \<open>toScale\<close> are the numbers as the template literal prints them.\<close>

definition scale :: "bool \<Rightarrow> string \<Rightarrow> string \<Rightarrow> nat \<Rightarrow> element \<Rightarrow> effect" where
  "scale isReducedMotion fromScale toScale duration el =
     (if isReducedMotion
      then \<lparr>ef_element = el\<lparr>el_transform := ''scale('' @ toScale @ '')''\<rparr>,
             ef_frames = [], ef_timeouts = []\<rparr>
      else \<lparr>ef_element = el\<lparr>el_transform := ''scale('' @ fromScale @ '')'',
                               el_transition := ''transform '' @ decimal duration @ ''ms ease''\<rparr>,
             ef_frames = [\<lambda>e. e\<lparr>el_transform := ''scale('' @ toScale @ '')''\<rparr>],
             ef_timeouts = []\<rparr>)"

text \<open>The element once every requested frame and every timeout has run.\<close>

definition settled :: "effect \<Rightarrow> element" where
  "settled ef = fold (\<lambda>f e. f e) (map snd (ef_timeouts ef)) (fold (\<lambda>f e. f e) (ef_frames ef) (ef_element ef))"

subsection \<open>The counter\<close>





text \<open>
  \<open>animateCounter(element, target, suffix, duration)\<close>, called at \<open>startTime\<close>: the element
  when the call returns, and whether it requested a frame.
\<close>

definition animateCounter :: "bool \<Rightarrow> string \<Rightarrow> string \<Rightarrow> element \<Rightarrow> element \<times> bool" where
  "animateCounter isReducedMotion target suffix el =
     (if isReducedMotion then (el\<lparr>el_textContent := target @ suffix\<rparr>, False)
      else (el, True))"


section \<open>Element Helper: the observer registry\<close>

text \<open>
  A native \<open>IntersectionObserver\<close>: its callback, its options, the elements it observes and
  the number of times its \<open>disconnect\<close> has been invoked. Observers are referred to by their
  position in the list of the observers constructed so far.
\<close>

record 'cb intersection_observer =
  io_callback :: 'cb
  io_threshold :: rat
  io_rootMargin :: string
  io_targets :: "nat list"
  io_disconnects :: nat

record observer_options =
  opt_threshold :: "rat option"
  opt_rootMargin :: "string option"

text \<open>
  The \<open>DOMManager\<close> instance: the map \<open>observers\<close> in insertion order and the map
  \<open>templates\<close>, with the observers constructed so far.
\<close>

record 'cb dom_manager =
  constructed :: "'cb intersection_observer list"
  observers :: "(string \<times> nat) list"
  templates :: "(string \<times> node) list"

definition new_DOMManager :: "'cb dom_manager" where
  "new_DOMManager = \<lparr>constructed = [], observers = [], templates = []\<rparr>"

text \<open>\<open>Map.set\<close>: a present key keeps its place and takes the new value.\<close>

fun map_set :: "'k \<Rightarrow> 'v \<Rightarrow> ('k \<times> 'v) list \<Rightarrow> ('k \<times> 'v) list" where
  "map_set k v [] = [(k, v)]"
| "map_set k v ((k', v') # kvs) =
     (if k' = k then (k, v) # kvs else (k', v') # map_set k v kvs)"

definition map_delete :: "'k \<Rightarrow> ('k \<times> 'v) list \<Rightarrow> ('k \<times> 'v) list" where
  "map_delete k kvs = filter (\<lambda>kv. fst kv \<noteq> k) kvs"

text \<open>The object at a reference, changed by \<open>f\<close>.\<close>

fun modify :: "nat \<Rightarrow> ('a \<Rightarrow> 'a) \<Rightarrow> 'a list \<Rightarrow> 'a list" where
  "modify n f [] = []"
| "modify 0 f (x # xs) = f x # xs"
| "modify (Suc n) f (x # xs) = x # modify n f xs"

text \<open>The native methods \<open>observe\<close>, \<open>unobserve\<close> and \<open>disconnect\<close>.\<close>

definition native_observe :: "nat \<Rightarrow> 'cb intersection_observer \<Rightarrow> 'cb intersection_observer" where
  "native_observe el io =
     (if el \<in> set (io_targets io) then io else io\<lparr>io_targets := io_targets io @ [el]\<rparr>)"

definition native_unobserve :: "nat \<Rightarrow> 'cb intersection_observer \<Rightarrow> 'cb intersection_observer" where
  "native_unobserve el io = io\<lparr>io_targets := filter (\<lambda>x. x \<noteq> el) (io_targets io)\<rparr>"

definition native_disconnect :: "'cb intersection_observer \<Rightarrow> 'cb intersection_observer" where
  "native_disconnect io = io\<lparr>io_targets := [], io_disconnects := Suc (io_disconnects io)\<rparr>"

text \<open>
  \<open>new IntersectionObserver(callback, {...defaultOptions, ...options})\<close>: an option that is
  not given takes its default, threshold 0.1 or root margin \<open>0px 0px -50px 0px\<close>.
  The handle the factory returns holds the observer and its identifier.
\<close>

record handle =
  h_observer :: nat
  h_id :: string

text \<open>
  \<open>createIntersectionObserver(callback, options)\<close>. The identifier
  \<open>observer_${Date.now()}_${Math.random()...}\<close> comes from the clock and the random source:
  it is the argument \<open>observerId\<close>.
\<close>

definition new_IntersectionObserver :: "'cb \<Rightarrow> observer_options \<Rightarrow> 'cb intersection_observer" where
  "new_IntersectionObserver callback options =
     \<lparr>io_callback = callback,
      io_threshold = (case opt_threshold options of None \<Rightarrow> 1 / 10 | Some x \<Rightarrow> x),
      io_rootMargin = (case opt_rootMargin options of None \<Rightarrow> ''0px 0px -50px 0px'' | Some m \<Rightarrow> m),
      io_targets = [], io_disconnects = 0\<rparr>"

definition createIntersectionObserver ::
  "'cb \<Rightarrow> observer_options \<Rightarrow> string \<Rightarrow> 'cb dom_manager \<Rightarrow> handle \<times> 'cb dom_manager" where
  "createIntersectionObserver callback options observerId dm =
     (let observer = new_IntersectionObserver callback options;
          ref = length (constructed dm)
      in (\<lparr>h_observer = ref, h_id = observerId\<rparr>,
          dm\<lparr>constructed := constructed dm @ [observer],
             observers := map_set observerId ref (observers dm)\<rparr>))"

definition handle_observe :: "handle \<Rightarrow> nat \<Rightarrow> 'cb dom_manager \<Rightarrow> 'cb dom_manager" where
  "handle_observe h el dm =
     dm\<lparr>constructed := modify (h_observer h) (native_observe el) (constructed dm)\<rparr>"

definition handle_unobserve :: "handle \<Rightarrow> nat \<Rightarrow> 'cb dom_manager \<Rightarrow> 'cb dom_manager" where
  "handle_unobserve h el dm =
     dm\<lparr>constructed := modify (h_observer h) (native_unobserve el) (constructed dm)\<rparr>"

definition handle_disconnect :: "handle \<Rightarrow> 'cb dom_manager \<Rightarrow> 'cb dom_manager" where
  "handle_disconnect h dm =
     dm\<lparr>constructed := modify (h_observer h) native_disconnect (constructed dm),
        observers := map_delete (h_id h) (observers dm)\<rparr>"

text \<open>
  \<open>cleanup()\<close>: \<open>disconnect\<close> on every value of the map \<open>observers\<close>, then both maps are
  cleared.
\<close>

definition cleanup :: "'cb dom_manager \<Rightarrow> 'cb dom_manager" where
  "cleanup dm =
     dm\<lparr>constructed := fold (\<lambda>kv. modify (snd kv) native_disconnect) (observers dm) (constructed dm),
        observers := [],
        templates := []\<rparr>"

text \<open>
  \<open>k\<close> calls of the factory, each with its callback, its options and the identifier
  generated for it: the handles in order, and the manager after the calls.
\<close>

fun create_all ::
  "('cb \<times> observer_options \<times> string) list \<Rightarrow> 'cb dom_manager \<Rightarrow> handle list \<times> 'cb dom_manager" where
  "create_all [] dm = ([], dm)"
| "create_all ((callback, options, observerId) # reqs) dm =
     (case createIntersectionObserver callback options observerId dm of
        (h, dm') \<Rightarrow> (case create_all reqs dm' of (hs, dm'') \<Rightarrow> (h # hs, dm'')))"

section \<open>Motion Controller: reveal on scroll\<close>

text \<open>
  Elements are objects with identity: a store maps each reference to the element's state.
  An \<open>IntersectionObserverEntry\<close> names its target by reference.
\<close>

type_synonym store = "nat \<Rightarrow> element"

record entry =
  isIntersecting :: bool
  entry_target :: nat

type_synonym callback = "entry list \<Rightarrow> store \<Rightarrow> store"

text \<open>
  One entry of the reveal callback. \<open>dataset.stagger\<close> counts when it is a non-empty string.
  The style setter drops a value that is no time, as \<open>NaNms\<close> is: the delay stays as it was.
\<close>

definition reveal_entry :: "entry \<Rightarrow> store \<Rightarrow> store" where
  "reveal_entry e st =
     (if isIntersecting e
      then (let el = addClass ''active'' (st (entry_target e))
            in st(entry_target e :=
                 (case el_stagger el of
                    None \<Rightarrow> el
                  | Some s \<Rightarrow>
                      if s = [] then el
                      else (case parseInt s of
                              None \<Rightarrow> el
                            | Some n \<Rightarrow> el\<lparr>el_transitionDelay := show_int (n * 100) @ ''ms''\<rparr>))))
      else st)"

definition revealCallback :: callback where
  "revealCallback entries st = fold reveal_entry entries st"

text \<open>
  The \<open>AnimationSystem\<close> with what it works on: the element helper, the elements, the
  references of the elements in the document (in document order), and its list \<open>observers\<close>.
\<close>

record motion =
  mw_dom :: "callback dom_manager"
  mw_elements :: store
  mw_document :: "nat list"
  mw_observers :: "handle list"

text \<open>\<open>domManager.querySelectorAll('.reveal')\<close>.\<close>

definition reveal_elements :: "motion \<Rightarrow> nat list" where
  "reveal_elements w = filter (\<lambda>r. ''reveal'' \<in> set (el_classList (mw_elements w r))) (mw_document w)"

definition setupScrollReveal :: "bool \<Rightarrow> string \<Rightarrow> motion \<Rightarrow> motion" where
  "setupScrollReveal isReducedMotion observerId w =
     (if isReducedMotion then w
      else (case createIntersectionObserver revealCallback
                   \<lparr>opt_threshold = Some (1 / 10), opt_rootMargin = Some ''0px 0px -100px 0px''\<rparr>
                   observerId (mw_dom w) of
              (revealObserver, dm) \<Rightarrow>
                w\<lparr>mw_dom := fold (handle_observe revealObserver) (reveal_elements w) dm,
                  mw_observers := mw_observers w @ [revealObserver]\<rparr>))"

text \<open>
  The browser reports an intersection change to the observer at \<open>ref\<close>: its callback runs on
  the entries whose targets it observes. Nothing happens when no such observer exists.
\<close>

fun lookup :: "nat \<Rightarrow> 'a list \<Rightarrow> 'a option" where
  "lookup n [] = None"
| "lookup 0 (x # xs) = Some x"
| "lookup (Suc n) (x # xs) = lookup n xs"

definition intersect :: "nat \<Rightarrow> entry list \<Rightarrow> motion \<Rightarrow> motion" where
  "intersect ref entries w =
     (case lookup ref (constructed (mw_dom w)) of
        None \<Rightarrow> w
      | Some io \<Rightarrow>
          w\<lparr>mw_elements :=
              io_callback io (filter (\<lambda>e. entry_target e \<in> set (io_targets io)) entries) (mw_elements w)\<rparr>)"

definition intersections :: "(nat \<times> entry list) list \<Rightarrow> motion \<Rightarrow> motion" where
  "intersections evs w = fold (\<lambda>(ref, entries). intersect ref entries) evs w"

section \<open>The browser's intersection test\<close>

text \<open>
  What the browser computes for an observer when it updates the intersection observations,
  for a target that no ancestor clips. Rectangles are in CSS pixels in document coordinates,
  \<open>y\<close> growing downwards; the viewport is the rectangle of the document that is on screen.
\<close>

record rect =
  r_left :: rat
  r_top :: rat
  r_right :: rat
  r_bottom :: rat

text \<open>
  One component of a root margin: an optional sign, digits with an optional fraction, and the
  unit \<open>px\<close>. Percentages, other units and exponents are not read here: \<open>None\<close>.
\<close>

definition parse_px :: "string \<Rightarrow> rat option" where
  "parse_px tok =
     (let neg = (take 1 tok = ''-'');
          u = (if take 1 tok = ''-'' \<or> take 1 tok = ''+'' then drop 1 tok else tok);
          ip = takeWhile is_digit u;
          r1 = dropWhile is_digit u;
          dot = (take 1 r1 = ''.'');
          fp = (if dot then takeWhile is_digit (drop 1 r1) else []);
          r2 = (if dot then dropWhile is_digit (drop 1 r1) else r1);
          v = of_nat (digits_value 10 digit_value ip)
              + of_nat (digits_value 10 digit_value fp) / 10 ^ length fp
      in if (ip = [] \<and> fp = []) \<or> (dot \<and> fp = []) \<or> r2 \<notin> {''px'', ''PX'', ''Px'', ''pX''}
         then None
         else Some (if neg then - v else v))"

text \<open>
  The root margin string: up to four components for top, right, bottom and left, completed
  the way the CSS \<open>margin\<close> shorthand is.
\<close>

definition parse_rootMargin :: "string \<Rightarrow> (rat \<times> rat \<times> rat \<times> rat) option" where
  "parse_rootMargin s =
     (case those (map parse_px (class_tokens [] s)) of
        None \<Rightarrow> None
      | Some [] \<Rightarrow> Some (0, 0, 0, 0)
      | Some [a] \<Rightarrow> Some (a, a, a, a)
      | Some [a, b] \<Rightarrow> Some (a, b, a, b)
      | Some [a, b, c] \<Rightarrow> Some (a, b, c, b)
      | Some [a, b, c, d] \<Rightarrow> Some (a, b, c, d)
      | Some (a # b # c # d # e # es) \<Rightarrow> None)"

text \<open>
  The root intersection rectangle: the viewport with each edge moved outwards by its margin,
  so inwards by a negative one.
\<close>

definition rootBounds :: "string \<Rightarrow> rect \<Rightarrow> rect option" where
  "rootBounds rootMargin viewport =
     (case parse_rootMargin rootMargin of
        None \<Rightarrow> None
      | Some (t, r, b, l) \<Rightarrow>
          Some \<lparr>r_left = r_left viewport - l, r_top = r_top viewport - t,
                r_right = r_right viewport + r, r_bottom = r_bottom viewport + b\<rparr>)"

text \<open>Two rectangles intersect or are edge-adjacent.\<close>

definition meets :: "rect \<Rightarrow> rect \<Rightarrow> bool" where
  "meets a b =
     (max (r_left a) (r_left b) \<le> min (r_right a) (r_right b)
      \<and> max (r_top a) (r_top b) \<le> min (r_bottom a) (r_bottom b))"

definition area :: "rect \<Rightarrow> rat" where
  "area a = (r_right a - r_left a) * (r_bottom a - r_top a)"

definition intersectionRect :: "rect \<Rightarrow> rect \<Rightarrow> rect" where
  "intersectionRect a b =
     \<lparr>r_left = max (r_left a) (r_left b), r_top = max (r_top a) (r_top b),
      r_right = min (r_right a) (r_right b), r_bottom = min (r_bottom a) (r_bottom b)\<rparr>"

text \<open>The part of the target's area inside the root; 1 for a target without area that meets it.\<close>

definition intersectionRatio :: "rect \<Rightarrow> rect \<Rightarrow> rat" where
  "intersectionRatio bounds targetRect =
     (if \<not> meets bounds targetRect then 0
      else if area targetRect = 0 then 1
      else area (intersectionRect bounds targetRect) / area targetRect)"

text \<open>
  A target counts as intersecting when it meets the root intersection rectangle with at least
  the threshold's part of its area (the engines report a target below the first threshold as
  not intersecting).
\<close>

definition is_intersecting :: "rat \<Rightarrow> rect \<Rightarrow> rect \<Rightarrow> bool" where
  "is_intersecting threshold bounds targetRect =
     (meets bounds targetRect \<and> threshold \<le> intersectionRatio bounds targetRect)"

text \<open>
  The entry the browser builds for a target of the observer; \<open>None\<close> when the root margin is
  not read.
\<close>

definition browser_entry ::
  "'cb intersection_observer \<Rightarrow> rect \<Rightarrow> (nat \<Rightarrow> rect) \<Rightarrow> nat \<Rightarrow> entry option" where
  "browser_entry io viewport layout r =
     (case rootBounds (io_rootMargin io) viewport of
        None \<Rightarrow> None
      | Some bounds \<Rightarrow>
          Some \<lparr>isIntersecting = is_intersecting (io_threshold io) bounds (layout r),
                entry_target = r\<rparr>)"

text \<open>
  The browser updates the observations of the observer at \<open>ref\<close> for the viewport: it queues an
  entry for each target whose state has changed since the previous update (for every target at
  the first update), and runs the callback when an entry is queued.
\<close>

definition notify :: "nat \<Rightarrow> (nat \<Rightarrow> rect) \<Rightarrow> rect option \<Rightarrow> rect \<Rightarrow> motion \<Rightarrow> motion" where
  "notify ref layout previous viewport w =
     (case lookup ref (constructed (mw_dom w)) of
        None \<Rightarrow> w
      | Some io \<Rightarrow>
          (let changed = filter (\<lambda>r. case previous of
                                        None \<Rightarrow> True
                                      | Some v \<Rightarrow> browser_entry io v layout r \<noteq> browser_entry io viewport layout r)
                           (io_targets io);
               entries = List.map_filter (browser_entry io viewport layout) changed
           in if entries = [] then w else intersect ref entries w))"

text \<open>The page is scrolled through a sequence of viewports.\<close>

fun scroll :: "nat \<Rightarrow> (nat \<Rightarrow> rect) \<Rightarrow> rect option \<Rightarrow> rect list \<Rightarrow> motion \<Rightarrow> motion" where
  "scroll ref layout previous [] w = w"
| "scroll ref layout previous (viewport # viewports) w =
     scroll ref layout (Some viewport) viewports (notify ref layout previous viewport w)"

text \<open>Each handle's observer is disconnected already or still registered under the handle's identifier.\<close>

definition accounted :: "handle list \<Rightarrow> 'cb dom_manager \<Rightarrow> bool" where
  "accounted hs dm =
     (\<forall>h \<in> set hs. \<exists>io. lookup (h_observer h) (constructed dm) = Some io
        \<and> (0 < io_disconnects io \<or> (h_id h, h_observer h) \<in> set (observers dm)))"

section \<open>Page Controller: field validation\<close>

text \<open>
  What \<open>validateField\<close> reads of a form field: its value, its type, whether it has the
  attribute \<open>required\<close>, and the element \<open>field.closest('.form-group')\<close> (\<open>None\<close> for null).
\<close>

record field =
  field_value :: string
  field_type :: string
  field_required :: bool
  field_group :: "element option"

definition trim :: "string \<Rightarrow> string" where
  "trim s = rev (dropWhile is_space (rev (dropWhile is_space s)))"

text \<open>
  The regular expressions in use are anchored sequences of literal characters and of
  character classes repeated once or more. A sequence matches a string when the string can
  be cut into consecutive pieces, one for each item.
\<close>

datatype regex_item = Lit char | Many1 "char \<Rightarrow> bool"

fun regex_test :: "regex_item list \<Rightarrow> string \<Rightarrow> bool" where
  "regex_test [] s = (s = [])"
| "regex_test (Lit a # items) [] = False"
| "regex_test (Lit a # items) (c # cs) = (c = a \<and> regex_test items cs)"
| "regex_test (Many1 p # items) [] = False"
| "regex_test (Many1 p # items) (c # cs) =
     (p c \<and> (regex_test items cs \<or> regex_test (Many1 p # items) cs))"

text \<open>The class \<open>[^\s@]\<close> and the pattern \<open>/^[^\s@]+@[^\s@]+\.[^\s@]+$/\<close>.\<close>

definition not_space_or_at :: "char \<Rightarrow> bool" where
  "not_space_or_at c = (\<not> is_space c \<and> c \<noteq> CHR ''@'')"

definition emailRegex :: "regex_item list" where
  "emailRegex =
     [Many1 not_space_or_at, Lit (CHR ''@''), Many1 not_space_or_at, Lit (CHR ''.''),
      Many1 not_space_or_at]"

text \<open>\<open>domManager.addClass\<close> and \<open>removeClass\<close> on an element that may be null.\<close>

definition addClass_opt :: "string \<Rightarrow> element option \<Rightarrow> element option" where
  "addClass_opt className el = map_option (addClass className) el"

definition removeClass_opt :: "string \<Rightarrow> element option \<Rightarrow> element option" where
  "removeClass_opt className el = map_option (removeClass className) el"

text \<open>\<open>validateField(field)\<close>: the result, and the field with its group after the call.\<close>

definition validateField :: "field \<Rightarrow> bool \<times> field" where
  "validateField f =
     (let v = trim (field_value f);
          isValid1 = (if field_required f \<and> v = [] then False else True);
          isValid = (if field_type f = ''email'' \<and> v \<noteq> []
                     then (if \<not> regex_test emailRegex v then False else isValid1)
                     else isValid1)
      in (isValid,
          f\<lparr>field_group :=
               (if isValid then removeClass_opt ''error'' (field_group f)
                else addClass_opt ''error'' (field_group f))\<rparr>))"

text \<open>
  The pattern in the specification's words: one or more characters that are neither space
  nor \<open>@\<close>, then \<open>@\<close>, then one or more such characters, then a dot, then one or more such
  characters.
\<close>

definition spec_email_pattern :: "string \<Rightarrow> bool" where
  "spec_email_pattern v =
     (\<exists>a b c. v = a @ ''@'' @ b @ ''.'' @ c
        \<and> a \<noteq> [] \<and> b \<noteq> [] \<and> c \<noteq> []
        \<and> list_all not_space_or_at a \<and> list_all not_space_or_at b \<and> list_all not_space_or_at c)"

section \<open>Properties of debounce and throttle\<close>

lemma clearTimeout_None [simp]: "clearTimeout None ts = ts"
  by (simp add: clearTimeout_def)

lemma clearTimeout_Nil [simp]: "clearTimeout h [] = []"
  by (simp add: clearTimeout_def split: option.split)

lemma clearTimeout_single [simp]: "clearTimeout (Some h) [(h, d, a)] = []"
  by (simp add: clearTimeout_def)

lemma single_pending_run_timers: "single_pending s \<Longrightarrow> single_pending (run_timers now s)"
proof (induction now s rule: run_timers.induct)
  case (1 now s)
  show ?case
  proof (cases "next_due now (pending s)")
    case None
    with "1.prems" show ?thesis by (simp add: run_timers.simps)
  next
    case (Some t)
    then have mem: "t \<in> set (pending s)" by (rule next_due_mem)
    with "1.prems" have p: "pending s = [t]"
      by (auto simp: single_pending_def split: list.splits)
    have "single_pending (later t (s\<lparr>pending := filter (\<lambda>u. fst u \<noteq> fst t) (pending s)\<rparr>))"
      by (simp add: p later_def single_pending_def)
    from "1.IH"[OF Some this] Some show ?thesis
      by (simp add: run_timers.simps)
  qed
qed

lemma next_handle_run_timers [simp]: "next_handle (run_timers now s) = next_handle s"
proof (induction now s rule: run_timers.induct)
  case (1 now s)
  show ?case
  proof (cases "next_due now (pending s)")
    case None
    then show ?thesis by (simp add: run_timers.simps)
  next
    case (Some t)
    from "1.IH"[OF Some] Some show ?thesis
      by (simp add: run_timers.simps later_def)
  qed
qed

lemma wait_run_timers [simp]: "wait (run_timers now s) = wait s"
proof (induction now s rule: run_timers.induct)
  case (1 now s)
  show ?case
  proof (cases "next_due now (pending s)")
    case None
    then show ?thesis by (simp add: run_timers.simps)
  next
    case (Some t)
    from "1.IH"[OF Some] Some show ?thesis
      by (simp add: run_timers.simps later_def)
  qed
qed

lemma pending_executedFunction:
  assumes "single_pending s"
  shows "pending (debounce_executedFunction now args s) = [(next_handle s, now + wait s, args)]"
    and "single_pending (debounce_executedFunction now args s)"
    and "next_handle (debounce_executedFunction now args s) = Suc (next_handle s)"
    and "wait (debounce_executedFunction now args s) = wait s"
proof -
  have sp: "single_pending (run_timers now s)"
    using assms by (rule single_pending_run_timers)
  then have c: "clearTimeout (timeout (run_timers now s)) (pending (run_timers now s)) = []"
    by (cases "pending (run_timers now s)") (auto simp: single_pending_def split: list.splits)
  show "pending (debounce_executedFunction now args s) = [(next_handle s, now + wait s, args)]"
    by (simp add: debounce_executedFunction_def Let_def c)
  show "single_pending (debounce_executedFunction now args s)"
    by (simp add: debounce_executedFunction_def Let_def c single_pending_def)
  show "next_handle (debounce_executedFunction now args s) = Suc (next_handle s)"
    by (simp add: debounce_executedFunction_def Let_def)
  show "wait (debounce_executedFunction now args s) = wait s"
    by (simp add: debounce_executedFunction_def Let_def)
qed

lemma debounce_fold_invariant:
  "single_pending s \<Longrightarrow>
   single_pending (fold (\<lambda>(now, args). debounce_executedFunction now args) invs s) \<and>
   next_handle (fold (\<lambda>(now, args). debounce_executedFunction now args) invs s)
     = next_handle s + length invs \<and>
   wait (fold (\<lambda>(now, args). debounce_executedFunction now args) invs s) = wait s"
proof (induction invs arbitrary: s)
  case Nil
  then show ?case by simp
next
  case (Cons i invs)
  obtain now args where i: "i = (now, args)" by (cases i)
  from Cons.IH[OF pending_executedFunction(2)[OF Cons.prems, of now args]]
  show ?case
    by (simp add: i pending_executedFunction(3,4)[OF Cons.prems])
qed

lemma run_timers_empty: "pending s = [] \<Longrightarrow> run_timers now s = s"
  by (simp add: run_timers.simps)

lemma run_timers_single:
  assumes "pending s = [(h, d, a)]" and "timeout s = Some h"
  shows "run_timers now s = (if d \<le> now then s\<lparr>pending := [], fired := fired s @ [(d, a)]\<rparr> else s)"
proof (cases "d \<le> now")
  case True
  let ?s1 = "later (h, d, a) (s\<lparr>pending := filter (\<lambda>u. fst u \<noteq> fst (h, d, a)) (pending s)\<rparr>)"
  have s1: "?s1 = s\<lparr>pending := [], fired := fired s @ [(d, a)]\<rparr>"
    by (simp add: later_def assms)
  have "run_timers now s = run_timers now ?s1"
    using True by (subst run_timers.simps) (simp add: assms)
  also have "\<dots> = ?s1" by (rule run_timers_empty) (simp add: later_def assms)
  finally show ?thesis using True s1 by simp
next
  case False
  then show ?thesis by (subst run_timers.simps) (simp add: assms)
qed

lemma single_pending_cases:
  assumes "single_pending s"
  obtains "pending s = []" | h d a where "pending s = [(h, d, a)]" "timeout s = Some h"
  using assms by (auto simp: single_pending_def split: list.splits)

lemma fired_run_timers:
  assumes "single_pending s"
  shows "set (fired (run_timers now s)) \<subseteq> set (fired s) \<union> set (map snd (pending s))"
  using assms
  by (rule single_pending_cases) (auto simp: run_timers_empty run_timers_single)

lemma fired_executedFunction:
  assumes "single_pending s"
  shows "set (fired (debounce_executedFunction now args s))
      \<subseteq> set (fired s) \<union> set (map snd (pending s))"
  using fired_run_timers[OF assms, of now]
  by (simp add: debounce_executedFunction_def Let_def)

lemma debounce_fold_fired:
  "single_pending s \<Longrightarrow>
   set (fired (fold (\<lambda>(now, args). debounce_executedFunction now args) invs s))
     \<union> set (map snd (pending (fold (\<lambda>(now, args). debounce_executedFunction now args) invs s)))
   \<subseteq> set (fired s) \<union> set (map snd (pending s)) \<union> (\<lambda>(t, a). (t + wait s, a)) ` set invs"
proof (induction invs arbitrary: s)
  case Nil
  then show ?case by simp
next
  case (Cons i invs)
  obtain now args where i: "i = (now, args)" by (cases i)
  let ?s1 = "debounce_executedFunction now args s"
  note p = pending_executedFunction[OF Cons.prems, of now args]
  from Cons.IH[OF p(2)] fired_executedFunction[OF Cons.prems, of now args]
  show ?case
    by (auto simp: i p(1) p(4))
qed

lemma flush_single:
  assumes "single_pending s"
  shows "fired (flush s) = fired s @ map snd (pending s)"
  using assms
proof (rule single_pending_cases)
  assume "pending s = []"
  then show ?thesis by (simp add: flush_def run_timers_empty)
next
  fix h d a
  assume "pending s = [(h, d, a)]" "timeout s = Some h"
  then show ?thesis by (simp add: flush_def run_timers_single)
qed

lemma debounce_fields [simp]:
  "wait (debounce w) = w" "pending (debounce w) = []" "fired (debounce w) = []"
  "next_handle (debounce w) = 0"
  by (simp_all add: debounce_def)

lemma debounce_trailing:
  "set (run_debounce w invs) \<subseteq> (\<lambda>(t, a). (t + w, a)) ` set invs"
proof -
  have init: "single_pending (debounce w :: 'a debounced)"
    by (simp add: single_pending_def debounce_def)
  let ?s = "fold (\<lambda>(now, args). debounce_executedFunction now args) invs (debounce w :: 'a debounced)"
  have sp: "single_pending ?s"
    by (rule conjunct1[OF debounce_fold_invariant[OF init]])
  from debounce_fold_fired[OF init, of invs]
  have "set (fired ?s) \<union> set (map snd (pending ?s)) \<subseteq> (\<lambda>(t, a). (t + w, a)) ` set invs"
    by simp
  moreover have "run_debounce w invs = fired ?s @ map snd (pending ?s)"
    unfolding run_debounce_def by (rule flush_single[OF sp])
  ultimately show ?thesis by simp
qed

lemma debounce_last:
  "last (run_debounce w (invs @ [(t, a)])) = (t + w, a)"
proof -
  have init: "single_pending (debounce w :: 'a debounced)"
    by (simp add: single_pending_def debounce_def)
  let ?before = "fold (\<lambda>(now, args). debounce_executedFunction now args) invs (debounce w :: 'a debounced)"
  let ?s = "fold (\<lambda>(now, args). debounce_executedFunction now args) (invs @ [(t, a)]) (debounce w :: 'a debounced)"
  have sp0: "single_pending ?before"
    by (rule conjunct1[OF debounce_fold_invariant[OF init]])
  have wt: "wait ?before = w"
    using conjunct2[OF conjunct2[OF debounce_fold_invariant[OF init, of invs]]] by simp
  have sp: "single_pending ?s"
    by (rule conjunct1[OF debounce_fold_invariant[OF init]])
  have "pending ?s = [(next_handle ?before, t + w, a)]"
    using pending_executedFunction(1)[OF sp0, of t a] by (simp add: wt)
  moreover have "run_debounce w (invs @ [(t, a)]) = fired ?s @ map snd (pending ?s)"
    unfolding run_debounce_def by (rule flush_single[OF sp])
  ultimately show ?thesis by simp
qed

text \<open>
  C7. debounce is trailing-edge with a single pending call: after any sequence of
  invocations followed by one at time \<open>t\<close> with arguments \<open>a\<close>, exactly one call is pending,
  due at \<open>t + wait\<close> with the arguments \<open>a\<close> of that most recent invocation, and it is the
  last call of the wrapped function; every call of the wrapped function happens \<open>wait\<close>
  after an invocation, with that invocation's arguments. With wait 100 and invocations at 0,
  50 and 90, the wrapped function is called exactly once, at 190, with the arguments of the
  invocation at 90.
\<close>

theorem debounce_trailing_single_pending:
  "pending (fold (\<lambda>(now, args). debounce_executedFunction now args) (invs @ [(t, a)]) (debounce w))
     = [(length invs, t + w, a)]
   \<and> last (run_debounce w (invs @ [(t, a)])) = (t + w, a)
   \<and> set (run_debounce w invs) \<subseteq> (\<lambda>(t, a). (t + w, a)) ` set invs
   \<and> run_debounce 100 [(0, x), (50, y), (90, z)] = [(190, z)]"
proof (intro conjI)
  have init: "single_pending (debounce w :: 'a debounced)"
    by (simp add: single_pending_def debounce_def)
  let ?before = "fold (\<lambda>(now, args). debounce_executedFunction now args) invs (debounce w :: 'a debounced)"
  from debounce_fold_invariant[OF init, of invs]
  have sp: "single_pending ?before" and nh: "next_handle ?before = length invs" and wt: "wait ?before = w"
    by simp_all
  show "pending (fold (\<lambda>(now, args). debounce_executedFunction now args) (invs @ [(t, a)]) (debounce w))
     = [(length invs, t + w, a)]"
    by (simp add: pending_executedFunction(1)[OF sp] nh wt)
next
  show "last (run_debounce w (invs @ [(t, a)])) = (t + w, a)"
    by (rule debounce_last)
next
  show "set (run_debounce w invs) \<subseteq> (\<lambda>(t, a). (t + w, a)) ` set invs"
    by (rule debounce_trailing)
next
  show "run_debounce 100 [(0, x), (50, y), (90, z)] = [(190, z)]"
    by (simp add: run_debounce_def debounce_def debounce_executedFunction_def flush_def
        run_timers.simps later_def clearTimeout_def Let_def)
qed

lemma calls_run_resets [simp]: "calls (run_resets now s) = calls s"
  by (simp add: run_resets_def)

lemma throttle_calls_subset:
  "set (calls (fold (\<lambda>(now, args). throttle_executedFunction now args) invs s))
     \<subseteq> set (calls s) \<union> set invs"
proof (induction invs arbitrary: s)
  case Nil
  then show ?case by simp
next
  case (Cons i invs)
  obtain now args where i: "i = (now, args)" by (cases i)
  have "set (calls (throttle_executedFunction now args s)) \<subseteq> set (calls s) \<union> {(now, args)}"
    by (auto simp: throttle_executedFunction_def run_resets_def Let_def)
  with Cons.IH[of "throttle_executedFunction now args s"] show ?case
    by (auto simp: i)
qed

lemma throttle_calls_prefix:
  "\<exists>more. calls (fold (\<lambda>(now, args). throttle_executedFunction now args) invs s) = calls s @ more"
proof (induction invs arbitrary: s)
  case Nil
  then show ?case by simp
next
  case (Cons i invs)
  obtain now args where i: "i = (now, args)" by (cases i)
  have "calls (throttle_executedFunction now args s) = calls s
      \<or> calls (throttle_executedFunction now args s) = calls s @ [(now, args)]"
    by (simp add: throttle_executedFunction_def Let_def)
  then obtain m1 where m1: "calls (throttle_executedFunction now args s) = calls s @ m1"
    by auto
  from Cons.IH[of "throttle_executedFunction now args s"] m1 show ?case
    by (auto simp: i)
qed

lemma throttle_invariant:
  "calls s = [] \<and> \<not> inThrottle s \<and> resets s = []
     \<or> calls s \<noteq> [] \<and> inThrottle s \<and> resets s = [fst (last (calls s)) + limit s] \<Longrightarrow>
   sorted_wrt (\<lambda>x y. fst x + limit s \<le> fst y) (calls s) \<Longrightarrow>
   sorted_wrt (\<lambda>x y. fst x + limit s \<le> fst y)
     (calls (fold (\<lambda>(now, args). throttle_executedFunction now args) invs s))"
proof (induction invs arbitrary: s)
  case Nil
  then show ?case by simp
next
  case (Cons i invs)
  obtain now args where i: "i = (now, args)" by (cases i)
  let ?s1 = "throttle_executedFunction now args s"
  let ?R = "\<lambda>x y. fst x + limit s \<le> fst y"
  have lim: "limit ?s1 = limit s"
    by (simp add: throttle_executedFunction_def run_resets_def Let_def)
  have below: "fst c + limit s \<le> fst (last (calls s)) + limit s" if "c \<in> set (calls s)" for c
  proof (cases "c = last (calls s)")
    case True
    then show ?thesis by simp
  next
    case False
    from that have ne: "calls s \<noteq> []" by auto
    then have "calls s = butlast (calls s) @ [last (calls s)]" by simp
    with Cons.prems(2) have "sorted_wrt ?R (butlast (calls s) @ [last (calls s)])" by simp
    then have "\<forall>x \<in> set (butlast (calls s)). fst x + limit s \<le> fst (last (calls s))"
      by (simp add: sorted_wrt_append)
    moreover from that False ne have "c \<in> set (butlast (calls s))"
      by (metis append_butlast_last_id in_set_butlastD insert_iff list.set(1) list.simps(15) rotate1.simps(2) set_rotate1)
    ultimately show ?thesis by auto
  qed
  have inv1: "calls ?s1 = [] \<and> \<not> inThrottle ?s1 \<and> resets ?s1 = []
     \<or> calls ?s1 \<noteq> [] \<and> inThrottle ?s1 \<and> resets ?s1 = [fst (last (calls ?s1)) + limit ?s1]"
    using Cons.prems(1)
    by (auto simp: throttle_executedFunction_def run_resets_def Let_def)
  have sorted1: "sorted_wrt ?R (calls ?s1)"
  proof (cases "calls ?s1 = calls s")
    case True
    with Cons.prems(2) show ?thesis by simp
  next
    case False
    then have fire: "calls ?s1 = calls s @ [(now, args)]"
      and free: "\<not> inThrottle (run_resets now s)"
      by (auto simp: throttle_executedFunction_def Let_def split: if_splits)
    have "fst c + limit s \<le> now" if c: "c \<in> set (calls s)" for c
    proof -
      from c have "calls s \<noteq> []" by auto
      with Cons.prems(1) have th: "inThrottle s"
        and rs: "resets s = [fst (last (calls s)) + limit s]" by auto
      from free th rs have "fst (last (calls s)) + limit s \<le> now"
        by (auto simp: run_resets_def split: if_splits)
      with below[OF c] show ?thesis by simp
    qed
    with Cons.prems(2) show ?thesis
      by (simp add: fire sorted_wrt_append)
  qed
  from Cons.IH[OF inv1] sorted1 lim show ?case by (simp add: i)
qed

lemma throttle_window:
  "sorted_wrt (\<lambda>x y. fst x + l \<le> fst y) (run_throttle l invs)"
  using throttle_invariant[of "throttle l" invs]
  by (simp add: run_throttle_def throttle_def)

text \<open>
  C8. throttle is leading-edge and drops the calls inside the window: the first invocation
  calls the wrapped function at once, every call of the wrapped function is an invocation
  at its own time with its own arguments (nothing is queued for later), any two calls of
  the wrapped function are at least \<open>limit\<close> apart, and with limit 10 and invocations at 0, 5
  and 15 the wrapped function is called at 0 and at 15 only.
\<close>

theorem throttle_leading_drops:
  "take 1 (run_throttle l ((t, a) # invs)) = [(t, a)]
   \<and> set (run_throttle l invs) \<subseteq> set invs
   \<and> sorted_wrt (\<lambda>c c'. fst c + l \<le> fst c') (run_throttle l invs)
   \<and> run_throttle 10 [(0, x), (5, y), (15, z)] = [(0, x), (15, z)]"
proof (intro conjI)
  let ?s = "throttle_executedFunction t a (throttle l)"
  have first: "calls ?s = [(t, a)]"
    by (simp add: throttle_executedFunction_def run_resets_def throttle_def Let_def)
  obtain more where
    "calls (fold (\<lambda>(now, args). throttle_executedFunction now args) invs ?s) = calls ?s @ more"
    using throttle_calls_prefix[of invs ?s] by blast
  then show "take 1 (run_throttle l ((t, a) # invs)) = [(t, a)]"
    by (simp add: run_throttle_def first)
next
  show "set (run_throttle l invs) \<subseteq> set invs"
    using throttle_calls_subset[of invs "throttle l"]
    by (simp add: run_throttle_def throttle_def)
next
  show "sorted_wrt (\<lambda>c c'. fst c + l \<le> fst c') (run_throttle l invs)"
    by (rule throttle_window)
next
  show "run_throttle 10 [(0, x), (5, y), (15, z)] = [(0, x), (15, z)]"
    by (simp add: run_throttle_def throttle_def throttle_executedFunction_def run_resets_def Let_def)
qed

section \<open>Properties of the Template Renderer\<close>

lemma forEach_fragment_total:
  assumes "\<And>i r. body i r = Inr (g i r)"
  shows "forEach_fragment body k rs = Inr (map (\<lambda>(i, r). g i r) (enumerate k rs))"
  by (induction rs arbitrary: k) (simp_all add: assms and_then_def)

lemma render_into_Element:
  assumes "\<And>i r. body i r = Inr (g i r)"
  shows "render_into body (Some rs) (Some (Element t cl atts ch))
    = Inr (Some (Element t cl atts (ch @ map (\<lambda>(i, r). g i r) (enumerate 0 rs))))"
  by (simp add: render_into_def forEach_fragment_total[of body g, OF assms] and_then_def)

lemma map_enumerate_index:
  assumes "\<And>i r. h (g i r) = k i"
  shows "map h (map (\<lambda>(i, r). g i r) (enumerate n rs)) = map k [n..<n + length rs]"
proof (induction rs arbitrary: n)
  case Nil
  then show ?case by simp
next
  case (Cons r rs)
  have "n < n + length (r # rs)" by simp
  then have "[n..<n + length (r # rs)] = n # [Suc n..<Suc n + length rs]"
    by (subst upt_conv_Cons) simp_all
  with Cons.IH[of "Suc n"] show ?case
    by (simp add: assms)
qed

lemma map_enumerate_record:
  assumes "\<And>i r. h (g i r) = k r"
  shows "map h (map (\<lambda>(i, r). g i r) (enumerate n rs)) = map k rs"
  by (induction rs arbitrary: n) (simp_all add: assms)

lemma map_enumerate_body:
  assumes "\<And>i r. body i r = Inr (g i r)"
  shows "map Inr (map (\<lambda>(i, r). g i r) (enumerate n rs)) = map (\<lambda>(i, r). body i r) (enumerate n rs)"
  by (induction rs arbitrary: n) (simp_all add: assms)

lemma render_into_cards:
  assumes body: "\<And>i r. body i r = Inr (g i r)"
    and attr: "\<And>i r. h (g i r) = k i r"
  shows "\<exists>cards.
      render_into body (Some rs) (Some (Element t cl atts ch))
        = Inr (Some (Element t cl atts (ch @ cards)))
      \<and> length cards = length rs
      \<and> map Inr cards = map (\<lambda>(i, r). body i r) (enumerate 0 rs)
      \<and> map h cards = map (\<lambda>(i, r). k i r) (enumerate 0 rs)"
proof (intro exI conjI)
  show "render_into body (Some rs) (Some (Element t cl atts ch))
        = Inr (Some (Element t cl atts (ch @ map (\<lambda>(i, r). g i r) (enumerate 0 rs))))"
    by (rule render_into_Element) (rule body)
  show "length (map (\<lambda>(i, r). g i r) (enumerate 0 rs)) = length rs" by simp
  show "map Inr (map (\<lambda>(i, r). g i r) (enumerate 0 rs)) = map (\<lambda>(i, r). body i r) (enumerate 0 rs)"
    by (rule map_enumerate_body) (rule body)
  show "map h (map (\<lambda>(i, r). g i r) (enumerate 0 rs)) = map (\<lambda>(i, r). k i r) (enumerate 0 rs)"
    by (simp add: attr case_prod_unfold)
qed

lemma map_index_enumerate:
  "map (\<lambda>(i, r). k i) (enumerate n rs) = map k [n..<n + length rs]"
proof (induction rs arbitrary: n)
  case Nil
  then show ?case by simp
next
  case (Cons r rs)
  have "n < n + length (r # rs)" by simp
  then have "[n..<n + length (r # rs)] = n # [Suc n..<Suc n + length rs]"
    by (subst upt_conv_Cons) simp_all
  with Cons.IH[of "Suc n"] show ?case by simp
qed

lemma map_record_enumerate:
  "map (\<lambda>(i, r). k r) (enumerate n rs) = map k rs"
  by (induction rs arbitrary: n) simp_all

lemmas render_unfold =
  createTemplates_def createElement_def classList_of_def is_ascii_space_def
  clone_template_def and_then_def append_text_def createTextNode_def

lemma feature_card_shape:
  "feature_card createTemplates i f =
     Inr (Element ''div'' [''feature-card'', ''reveal''] [(''data-stagger'', decimal i)]
       [Element ''div'' [''feature-icon''] [] [Text (feature_icon f)],
        Element ''h3'' [''feature-title''] [] [Text (feature_title f)],
        Element ''p'' [''feature-description''] [] [Text (feature_description f)]])"
  by (simp add: feature_card_def render_unfold)

lemma stat_card_shape:
  "stat_card createTemplates i s =
     Inr (Element ''div'' [''stat-card'', ''reveal''] [(''data-stagger'', decimal i)]
       [Element ''div'' [''stat-number'']
          [(''data-target'', stat_number s), (''data-suffix'', suffix_or_empty s)]
          [Text (''0'' @ suffix_or_empty s)],
        Element ''div'' [''stat-label''] [] [Text (stat_label s)]])"
  by (simp add: stat_card_def render_unfold)

lemma event_item_shape:
  "event_item pd createTemplates i e =
     Inr (Element ''div'' [''event-item'', ''reveal''] [(''data-stagger'', decimal i)]
       [Element ''div'' [''event-content''] []
          [Element ''div'' [''event-card''] []
             [Element ''div'' [''event-type''] [] [Text (event_type e)],
              Element ''h3'' [''event-title''] [] [Text (event_title e)],
              Element ''p'' [''event-description''] [] [Text (event_description e)]]],
        Element ''div'' [''event-date''] []
          [Element ''div'' [''event-day''] [] [Text (event_day pd e)],
           Element ''div'' [''event-month''] [] [Text (event_month pd e)]]])"
  by (simp add: event_item_def render_unfold)

lemma contact_item_shape:
  "contact_item createTemplates i c =
     Inr (Element ''div'' [''contact-item'', ''reveal''] [(''data-stagger'', decimal i)]
       [Element ''div'' [''contact-icon''] [] [Text (contact_icon c)],
        Element ''div'' [''contact-details''] []
          [Element ''h4'' [] [] [Text (contact_title c)],
           Element ''div'' [''contact-value''] [] [Text (contact_value c)],
           Element ''div'' [''contact-description''] [] [Text (contact_description c)]]])"
  by (simp add: contact_item_def render_unfold)

lemma append_links_shape:
  "append_links ls (Element ''div'' [''footer-section''] []
       [Element ''h3'' [] [] [Text ttl], Element ''div'' [''footer-nav''] [] nav]) =
     Inr (Element ''div'' [''footer-section''] []
       [Element ''h3'' [] [] [Text ttl],
        Element ''div'' [''footer-nav''] [] (nav @ map link_element ls)])"
  by (induction ls arbitrary: nav) (simp_all add: and_then_def)

lemma footer_section_el_shape:
  "footer_section_el createTemplates i s =
     Inr (Element ''div'' [''footer-section''] []
       [Element ''h3'' [] [] [Text (section_title s)],
        Element ''div'' [''footer-nav''] [] (map link_element (section_links s))])"
  by (simp add: footer_section_el_def render_unfold append_links_shape)

lemma stats_forEach_total:
  "stats_forEach createTemplates k ss =
     (Inr (map (\<lambda>(i, s). Element ''div'' [''stat-card'', ''reveal''] [(''data-stagger'', decimal i)]
                 [Element ''div'' [''stat-number'']
                    [(''data-target'', stat_number s), (''data-suffix'', suffix_or_empty s)]
                    [Text (''0'' @ suffix_or_empty s)],
                  Element ''div'' [''stat-label''] [] [Text (stat_label s)]]) (enumerate k ss)),
      map (\<lambda>(i, s). \<lparr>ct_delay = i * 200, ct_card = i,
                       ct_target = stat_number s @ suffix_or_empty s\<rparr>) (enumerate k ss))"
  by (induction ss arbitrary: k) (simp_all add: stat_card_shape and_then_def)

text \<open>
  C1, as stated, fails for the footer: \<open>renderFooterLinks\<close> stamps no stagger index (its
  skeleton is not flagged for reveal either). One footer section rendered into an empty
  container gives one instance without a \<open>data-stagger\<close> attribute.
\<close>

theorem footer_has_no_stagger_index:
  "renderFooterLinks createTemplates
     (Some [\<lparr>section_title = ''Company'', section_links = []\<rparr>])
     (Some (Element ''div'' [] [] []))
   = Inr (Some (Element ''div'' [] [] 
       [Element ''div'' [''footer-section''] []
          [Element ''h3'' [] [] [Text ''Company''], Element ''div'' [''footer-nav''] [] []]]))
   \<and> getAttribute ''data-stagger''
       (Element ''div'' [''footer-section''] []
          [Element ''h3'' [] [] [Text ''Company''], Element ''div'' [''footer-nav''] [] []])
     = None"
  by (simp add: renderFooterLinks_def render_into_def footer_section_el_def render_unfold)

text \<open>
  C1, amended. Rendering \<open>n\<close> records into a present container appends exactly \<open>n\<close>
  instances after the container's children, the i-th being the instance the loop body
  builds from the i-th record. For features, stats, events and contact entries the i-th
  instance carries \<open>data-stagger = i\<close> (in decimal, from 0); a footer section carries no
  \<open>data-stagger\<close> attribute.
\<close>

theorem render_appends_in_order:
  "(\<exists>cards.
      renderFeatures createTemplates (Some fs) (Some (Element t cl atts ch))
        = Inr (Some (Element t cl atts (ch @ cards)))
      \<and> length cards = length fs
      \<and> map Inr cards = map (\<lambda>(i, f). feature_card createTemplates i f) (enumerate 0 fs)
      \<and> map (getAttribute ''data-stagger'') cards = map (\<lambda>i. Some (decimal i)) [0..<length fs])
   \<and> (\<exists>cards.
      fst (renderStats createTemplates (Some ss) (Some (Element t cl atts ch)) ts)
        = Inr (Some (Element t cl atts (ch @ cards)))
      \<and> length cards = length ss
      \<and> map Inr cards = map (\<lambda>(i, s). stat_card createTemplates i s) (enumerate 0 ss)
      \<and> map (getAttribute ''data-stagger'') cards = map (\<lambda>i. Some (decimal i)) [0..<length ss])
   \<and> (\<exists>cards.
      renderEvents pd createTemplates (Some es) (Some (Element t cl atts ch))
        = Inr (Some (Element t cl atts (ch @ cards)))
      \<and> length cards = length es
      \<and> map Inr cards = map (\<lambda>(i, e). event_item pd createTemplates i e) (enumerate 0 es)
      \<and> map (getAttribute ''data-stagger'') cards = map (\<lambda>i. Some (decimal i)) [0..<length es])
   \<and> (\<exists>cards.
      renderContactInfo createTemplates (Some cs) (Some (Element t cl atts ch))
        = Inr (Some (Element t cl atts (ch @ cards)))
      \<and> length cards = length cs
      \<and> map Inr cards = map (\<lambda>(i, c). contact_item createTemplates i c) (enumerate 0 cs)
      \<and> map (getAttribute ''data-stagger'') cards = map (\<lambda>i. Some (decimal i)) [0..<length cs])
   \<and> (\<exists>cards.
      renderFooterLinks createTemplates (Some fss) (Some (Element t cl atts ch))
        = Inr (Some (Element t cl atts (ch @ cards)))
      \<and> length cards = length fss
      \<and> map Inr cards = map (\<lambda>(i, s). footer_section_el createTemplates i s) (enumerate 0 fss)
      \<and> map (getAttribute ''data-stagger'') cards = map (\<lambda>s. None) fss)"
proof (intro conjI)
  from render_into_cards[of "feature_card createTemplates" _ "getAttribute ''data-stagger''"
      "\<lambda>i f. Some (decimal i)", OF feature_card_shape]
  show "\<exists>cards.
      renderFeatures createTemplates (Some fs) (Some (Element t cl atts ch))
        = Inr (Some (Element t cl atts (ch @ cards)))
      \<and> length cards = length fs
      \<and> map Inr cards = map (\<lambda>(i, f). feature_card createTemplates i f) (enumerate 0 fs)
      \<and> map (getAttribute ''data-stagger'') cards = map (\<lambda>i. Some (decimal i)) [0..<length fs]"
    by (simp add: renderFeatures_def map_index_enumerate)
next
  let ?g = "\<lambda>i s. Element ''div'' [''stat-card'', ''reveal''] [(''data-stagger'', decimal i)]
            [Element ''div'' [''stat-number'']
               [(''data-target'', stat_number s), (''data-suffix'', suffix_or_empty s)]
               [Text (''0'' @ suffix_or_empty s)],
             Element ''div'' [''stat-label''] [] [Text (stat_label s)]]"
  let ?cards = "map (\<lambda>(i, s). ?g i s) (enumerate 0 ss)"
  have "fst (renderStats createTemplates (Some ss) (Some (Element t cl atts ch)) ts)
      = Inr (Some (Element t cl atts (ch @ ?cards)))"
    by (simp add: renderStats_def stats_forEach_total and_then_def)
  moreover have "length ?cards = length ss" by simp
  moreover have "map Inr ?cards = map (\<lambda>(i, s). stat_card createTemplates i s) (enumerate 0 ss)"
    by (rule map_enumerate_body) (rule stat_card_shape)
  moreover have "map (getAttribute ''data-stagger'') ?cards = map (\<lambda>i. Some (decimal i)) [0..<length ss]"
    using map_enumerate_index[of "getAttribute ''data-stagger''" ?g "\<lambda>i. Some (decimal i)" 0 ss]
    by simp
  ultimately show "\<exists>cards.
      fst (renderStats createTemplates (Some ss) (Some (Element t cl atts ch)) ts)
        = Inr (Some (Element t cl atts (ch @ cards)))
      \<and> length cards = length ss
      \<and> map Inr cards = map (\<lambda>(i, s). stat_card createTemplates i s) (enumerate 0 ss)
      \<and> map (getAttribute ''data-stagger'') cards = map (\<lambda>i. Some (decimal i)) [0..<length ss]"
    by blast
next
  from render_into_cards[of "event_item pd createTemplates" _ "getAttribute ''data-stagger''"
      "\<lambda>i e. Some (decimal i)", OF event_item_shape]
  show "\<exists>cards.
      renderEvents pd createTemplates (Some es) (Some (Element t cl atts ch))
        = Inr (Some (Element t cl atts (ch @ cards)))
      \<and> length cards = length es
      \<and> map Inr cards = map (\<lambda>(i, e). event_item pd createTemplates i e) (enumerate 0 es)
      \<and> map (getAttribute ''data-stagger'') cards = map (\<lambda>i. Some (decimal i)) [0..<length es]"
    by (simp add: renderEvents_def map_index_enumerate)
next
  from render_into_cards[of "contact_item createTemplates" _ "getAttribute ''data-stagger''"
      "\<lambda>i c. Some (decimal i)", OF contact_item_shape]
  show "\<exists>cards.
      renderContactInfo createTemplates (Some cs) (Some (Element t cl atts ch))
        = Inr (Some (Element t cl atts (ch @ cards)))
      \<and> length cards = length cs
      \<and> map Inr cards = map (\<lambda>(i, c). contact_item createTemplates i c) (enumerate 0 cs)
      \<and> map (getAttribute ''data-stagger'') cards = map (\<lambda>i. Some (decimal i)) [0..<length cs]"
    by (simp add: renderContactInfo_def map_index_enumerate)
next
  from render_into_cards[of "footer_section_el createTemplates" _ "getAttribute ''data-stagger''"
      "\<lambda>i s. None", OF footer_section_el_shape]
  show "\<exists>cards.
      renderFooterLinks createTemplates (Some fss) (Some (Element t cl atts ch))
        = Inr (Some (Element t cl atts (ch @ cards)))
      \<and> length cards = length fss
      \<and> map Inr cards = map (\<lambda>(i, s). footer_section_el createTemplates i s) (enumerate 0 fss)
      \<and> map (getAttribute ''data-stagger'') cards = map (\<lambda>s. None) fss"
    by (simp add: renderFooterLinks_def map_record_enumerate)
qed

text \<open>
  C6. A render call whose container is null, or whose records are absent, returns normally
  and changes nothing: the container is returned as it was, and \<open>renderStats\<close> sets no
  timeout. This holds for every template table, also one that lacks a skeleton.
\<close>

theorem render_absent_is_noop:
  "renderFeatures tmpl features None = Inr None
   \<and> renderFeatures tmpl None container = Inr container
   \<and> renderStats tmpl stats None timeouts = (Inr None, timeouts)
   \<and> renderStats tmpl None container timeouts = (Inr container, timeouts)
   \<and> renderEvents parse_date tmpl events None = Inr None
   \<and> renderEvents parse_date tmpl None container = Inr container
   \<and> renderContactInfo tmpl contactData None = Inr None
   \<and> renderContactInfo tmpl None container = Inr container
   \<and> renderFooterLinks tmpl footerData None = Inr None
   \<and> renderFooterLinks tmpl None container = Inr container"
  by (simp add: renderFeatures_def renderStats_def renderEvents_def renderContactInfo_def
      renderFooterLinks_def render_into_def split: option.split)

text \<open>
  C9. For the stat records rendered by \<open>renderStats\<close>, in order: the label slot of each card
  holds exactly the label, the number slot holds \<open>0\<close> followed by the suffix (nothing when the
  suffix is absent), the number itself is stored in \<open>data-target\<close> of the number slot, and
  the timeout set for the counter carries the number followed by the suffix. The stat
  (42, %, Growth) gives the label text Growth and the number text 0%.
\<close>

theorem stat_card_slots:
  "(\<exists>cards timers.
      renderStats createTemplates (Some ss) (Some (Element t cl atts ch)) ts
        = (Inr (Some (Element t cl atts (ch @ cards))), ts @ timers)
      \<and> map (\<lambda>c. map_option textContent (querySelector ''.stat-label'' c)) cards
          = map (\<lambda>s. Some (stat_label s)) ss
      \<and> map (\<lambda>c. map_option textContent (querySelector ''.stat-number'' c)) cards
          = map (\<lambda>s. Some (''0'' @ (case stat_suffix s of None \<Rightarrow> '''' | Some x \<Rightarrow> x))) ss
      \<and> map (\<lambda>c. map_option (getAttribute ''data-target'') (querySelector ''.stat-number'' c)) cards
          = map (\<lambda>s. Some (Some (stat_number s))) ss
      \<and> map ct_target timers
          = map (\<lambda>s. stat_number s @ (case stat_suffix s of None \<Rightarrow> '''' | Some x \<Rightarrow> x)) ss)
   \<and> renderStats createTemplates
        (Some [\<lparr>stat_number = ''42'', stat_suffix = Some ''%'', stat_label = ''Growth''\<rparr>])
        (Some (Element ''div'' [] [] [])) []
      = (Inr (Some (Element ''div'' [] []
           [Element ''div'' [''stat-card'', ''reveal''] [(''data-stagger'', ''0'')]
              [Element ''div'' [''stat-number''] [(''data-target'', ''42''), (''data-suffix'', ''%'')]
                 [Text ''0%''],
               Element ''div'' [''stat-label''] [] [Text ''Growth'']]])),
         [\<lparr>ct_delay = 0, ct_card = 0, ct_target = ''42%''\<rparr>])"
proof (intro conjI)
  let ?g = "\<lambda>i s. Element ''div'' [''stat-card'', ''reveal''] [(''data-stagger'', decimal i)]
            [Element ''div'' [''stat-number'']
               [(''data-target'', stat_number s), (''data-suffix'', suffix_or_empty s)]
               [Text (''0'' @ suffix_or_empty s)],
             Element ''div'' [''stat-label''] [] [Text (stat_label s)]]"
  let ?cards = "map (\<lambda>(i, s). ?g i s) (enumerate 0 ss)"
  let ?timers = "map (\<lambda>(i, s). \<lparr>ct_delay = i * 200, ct_card = i,
        ct_target = stat_number s @ suffix_or_empty s\<rparr>) (enumerate 0 ss)"
  have sfx: "suffix_or_empty s = (case stat_suffix s of None \<Rightarrow> '''' | Some x \<Rightarrow> x)" for s
    by (simp add: suffix_or_empty_def)
  have "renderStats createTemplates (Some ss) (Some (Element t cl atts ch)) ts
      = (Inr (Some (Element t cl atts (ch @ ?cards))), ts @ ?timers)"
    by (simp add: renderStats_def stats_forEach_total and_then_def)
  moreover have "map (\<lambda>c. map_option textContent (querySelector ''.stat-label'' c)) ?cards
      = map (\<lambda>s. Some (stat_label s)) ss"
    by (rule map_enumerate_record) (simp add: querySelector_def)
  moreover have "map (\<lambda>c. map_option textContent (querySelector ''.stat-number'' c)) ?cards
      = map (\<lambda>s. Some (''0'' @ (case stat_suffix s of None \<Rightarrow> '''' | Some x \<Rightarrow> x))) ss"
    by (rule map_enumerate_record) (simp add: querySelector_def sfx)
  moreover have "map (\<lambda>c. map_option (getAttribute ''data-target'') (querySelector ''.stat-number'' c)) ?cards
      = map (\<lambda>s. Some (Some (stat_number s))) ss"
    by (rule map_enumerate_record) (simp add: querySelector_def)
  moreover have "map ct_target ?timers
      = map (\<lambda>s. stat_number s @ (case stat_suffix s of None \<Rightarrow> '''' | Some x \<Rightarrow> x)) ss"
    by (rule map_enumerate_record) (simp add: sfx)
  ultimately show "\<exists>cards timers.
      renderStats createTemplates (Some ss) (Some (Element t cl atts ch)) ts
        = (Inr (Some (Element t cl atts (ch @ cards))), ts @ timers)
      \<and> map (\<lambda>c. map_option textContent (querySelector ''.stat-label'' c)) cards
          = map (\<lambda>s. Some (stat_label s)) ss
      \<and> map (\<lambda>c. map_option textContent (querySelector ''.stat-number'' c)) cards
          = map (\<lambda>s. Some (''0'' @ (case stat_suffix s of None \<Rightarrow> '''' | Some x \<Rightarrow> x))) ss
      \<and> map (\<lambda>c. map_option (getAttribute ''data-target'') (querySelector ''.stat-number'' c)) cards
          = map (\<lambda>s. Some (Some (stat_number s))) ss
      \<and> map ct_target timers
          = map (\<lambda>s. stat_number s @ (case stat_suffix s of None \<Rightarrow> '''' | Some x \<Rightarrow> x)) ss"
    by blast
next
  show "renderStats createTemplates
        (Some [\<lparr>stat_number = ''42'', stat_suffix = Some ''%'', stat_label = ''Growth''\<rparr>])
        (Some (Element ''div'' [] [] [])) []
      = (Inr (Some (Element ''div'' [] []
           [Element ''div'' [''stat-card'', ''reveal''] [(''data-stagger'', ''0'')]
              [Element ''div'' [''stat-number''] [(''data-target'', ''42''), (''data-suffix'', ''%'')]
                 [Text ''0%''],
               Element ''div'' [''stat-label''] [] [Text ''Growth'']]])),
         [\<lparr>ct_delay = 0, ct_card = 0, ct_target = ''42%''\<rparr>])"
    by (simp add: renderStats_def stat_card_shape and_then_def suffix_or_empty_def decimal.simps)
qed

section \<open>Properties of the counter animation\<close>

lemma digit_not_space: "is_digit c \<Longrightarrow> \<not> is_space c"
  by (auto simp: is_digit_def is_space_def)

lemma parseInt_digits:
  assumes "\<forall>c \<in> set ds. is_digit c"
  shows "parseInt ds = (if ds = [] then None else Some (int (digits_value 10 digit_value ds)))"
proof (cases ds)
  case Nil
  then show ?thesis by (simp add: parseInt_def)
next
  case (Cons c cs)
  with assms have c: "is_digit c" and cs: "\<forall>x \<in> set cs. is_digit x" by auto
  have nsp: "\<not> is_space c" using c by (rule digit_not_space)
  have nsign: "c \<noteq> CHR ''-''" "c \<noteq> CHR ''+''"
    using c by (auto simp: is_digit_def)
  have nhex: "take 2 (c # cs) \<noteq> ''0x''" "take 2 (c # cs) \<noteq> ''0X''"
    using cs by (cases cs; auto simp: is_digit_def)+
  have tw: "takeWhile is_digit (c # cs) = c # cs"
    using c cs by (simp add: takeWhile_eq_all_conv)
  show ?thesis
    unfolding Cons parseInt_def Let_def
    using nsp nsign nhex tw by auto
qed












section \<open>Properties of the observer registry\<close>

lemma length_modify [simp]: "length (modify n f xs) = length xs"
  by (induction n f xs rule: modify.induct) simp_all

lemma lookup_modify_same: "lookup n xs = Some x \<Longrightarrow> lookup n (modify n f xs) = Some (f x)"
  by (induction n f xs rule: modify.induct) simp_all

lemma lookup_modify_other: "m \<noteq> n \<Longrightarrow> lookup m (modify n f xs) = lookup m xs"
proof (induction n f xs arbitrary: m rule: modify.induct)
  case (1 n f)
  then show ?case by simp
next
  case (2 f x xs)
  then show ?case by (cases m) simp_all
next
  case (3 n f x xs)
  then show ?case by (cases m) simp_all
qed

lemma lookup_append_right: "lookup (length xs + n) (xs @ ys) = lookup n ys"
  by (induction xs) simp_all

lemma lookup_map: "lookup n (map f xs) = map_option f (lookup n xs)"
  by (induction n xs rule: lookup.induct) simp_all

lemma lookup_in_range: "n < length xs \<Longrightarrow> \<exists>x. lookup n xs = Some x"
  by (induction n xs rule: lookup.induct) simp_all

lemma disconnected_stays:
  assumes "lookup ref ios = Some io" and "0 < io_disconnects io" and "io_targets io = []"
  shows "\<exists>io'. lookup ref (fold (\<lambda>kv. modify (snd kv) native_disconnect) kvs ios) = Some io'
           \<and> 0 < io_disconnects io' \<and> io_targets io' = []"
  using assms
proof (induction kvs arbitrary: ios io)
  case Nil
  then show ?case by simp
next
  case (Cons kv kvs)
  show ?case
  proof (cases "snd kv = ref")
    case True
    with Cons.prems(1)
    have "lookup ref (modify (snd kv) native_disconnect ios) = Some (native_disconnect io)"
      by (simp add: lookup_modify_same)
    moreover have "0 < io_disconnects (native_disconnect io)"
      and "io_targets (native_disconnect io) = []"
      by (simp_all add: native_disconnect_def)
    ultimately show ?thesis using Cons.IH by simp
  next
    case False
    then have "lookup ref (modify (snd kv) native_disconnect ios) = Some io"
      using Cons.prems(1) by (simp add: lookup_modify_other)
    from Cons.IH[OF this Cons.prems(2,3)] show ?thesis by simp
  qed
qed

lemma registered_is_disconnected:
  assumes "(k, ref) \<in> set kvs" and "lookup ref ios = Some io"
  shows "\<exists>io'. lookup ref (fold (\<lambda>kv. modify (snd kv) native_disconnect) kvs ios) = Some io'
           \<and> 0 < io_disconnects io' \<and> io_targets io' = []"
  using assms
proof (induction kvs arbitrary: ios io)
  case Nil
  then show ?case by simp
next
  case (Cons kv kvs)
  show ?case
  proof (cases "snd kv = ref")
    case True
    with Cons.prems(2)
    have "lookup ref (modify (snd kv) native_disconnect ios) = Some (native_disconnect io)"
      by (simp add: lookup_modify_same)
    moreover have "0 < io_disconnects (native_disconnect io)"
      and "io_targets (native_disconnect io) = []"
      by (simp_all add: native_disconnect_def)
    ultimately show ?thesis using disconnected_stays[of ref _ "native_disconnect io" kvs] by simp
  next
    case False
    with Cons.prems(1) have mem: "(k, ref) \<in> set kvs" by auto
    from False have "lookup ref (modify (snd kv) native_disconnect ios) = Some io"
      using Cons.prems(2) by (simp add: lookup_modify_other)
    from Cons.IH[OF mem this] show ?thesis by simp
  qed
qed

lemma create_all_result:
  "create_all reqs dm0 = (hs, dm) \<Longrightarrow>
   constructed dm = constructed dm0
       @ map (\<lambda>(callback, options, observerId). new_IntersectionObserver callback options) reqs
   \<and> map h_observer hs = [length (constructed dm0)..<length (constructed dm0) + length reqs]
   \<and> map h_id hs = map (\<lambda>(callback, options, observerId). observerId) reqs"
proof (induction reqs arbitrary: dm0 hs dm)
  case Nil
  then show ?case by simp
next
  case (Cons req reqs)
  obtain callback options observerId where req: "req = (callback, options, observerId)"
    by (cases req) auto
  obtain h dm1 where c: "createIntersectionObserver callback options observerId dm0 = (h, dm1)"
    by (cases "createIntersectionObserver callback options observerId dm0")
  obtain hs' dm2 where r: "create_all reqs dm1 = (hs', dm2)"
    by (cases "create_all reqs dm1")
  from Cons.prems req c r have eq: "hs = h # hs'" "dm = dm2" by simp_all
  from c have h: "h_observer h = length (constructed dm0)" "h_id h = observerId"
    and d1: "constructed dm1 = constructed dm0 @ [new_IntersectionObserver callback options]"
    by (auto simp: createIntersectionObserver_def Let_def)
  have l1: "length (constructed dm1) = Suc (length (constructed dm0))"
    by (simp add: d1)
  from Cons.IH[OF r]
  have ih1: "constructed dm2 = constructed dm1
        @ map (\<lambda>(callback, options, observerId). new_IntersectionObserver callback options) reqs"
    and ih2: "map h_observer hs' = [length (constructed dm1)..<length (constructed dm1) + length reqs]"
    and ih3: "map h_id hs' = map (\<lambda>(callback, options, observerId). observerId) reqs"
    by blast+
  have "length (constructed dm0) < length (constructed dm0) + length (req # reqs)" by simp
  then have upt: "[length (constructed dm0)..<length (constructed dm0) + length (req # reqs)]
      = length (constructed dm0) # [Suc (length (constructed dm0))..<Suc (length (constructed dm0)) + length reqs]"
    by (subst upt_conv_Cons) simp_all
  have "map h_observer hs = length (constructed dm0) # map h_observer hs'"
    by (simp add: eq h)
  also have "\<dots> = [length (constructed dm0)..<length (constructed dm0) + length (req # reqs)]"
    unfolding upt ih2 l1 ..
  finally have refs: "map h_observer hs
      = [length (constructed dm0)..<length (constructed dm0) + length (req # reqs)]" .
  have "constructed dm = constructed dm0
       @ map (\<lambda>(callback, options, observerId). new_IntersectionObserver callback options) (req # reqs)"
    by (simp add: eq ih1 d1 req)
  moreover have "map h_id hs = map (\<lambda>(callback, options, observerId). observerId) (req # reqs)"
    by (simp add: eq h ih3 req)
  ultimately show ?case using refs by blast
qed

lemma disconnects_grow:
  assumes "lookup ref ios = Some io" and "0 < io_disconnects io"
  shows "\<exists>io'. lookup ref (fold (\<lambda>kv. modify (snd kv) native_disconnect) kvs ios) = Some io'
           \<and> 0 < io_disconnects io'"
  using assms
proof (induction kvs arbitrary: ios io)
  case Nil
  then show ?case by simp
next
  case (Cons kv kvs)
  show ?case
  proof (cases "snd kv = ref")
    case True
    with Cons.prems(1)
    have "lookup ref (modify (snd kv) native_disconnect ios) = Some (native_disconnect io)"
      by (simp add: lookup_modify_same)
    moreover have "0 < io_disconnects (native_disconnect io)"
      by (simp add: native_disconnect_def)
    ultimately show ?thesis using Cons.IH by simp
  next
    case False
    then have "lookup ref (modify (snd kv) native_disconnect ios) = Some io"
      using Cons.prems(1) by (simp add: lookup_modify_other)
    from Cons.IH[OF this Cons.prems(2)] show ?thesis by simp
  qed
qed

lemma accounted_handle_disconnect:
  assumes acc: "accounted hs dm"
    and ids: "\<forall>h \<in> set hs. h_id h = h_id d \<longrightarrow> h_observer h = h_observer d"
  shows "accounted hs (handle_disconnect d dm)"
  unfolding accounted_def
proof
  fix h assume h: "h \<in> set hs"
  with acc obtain io where io: "lookup (h_observer h) (constructed dm) = Some io"
    and alt: "0 < io_disconnects io \<or> (h_id h, h_observer h) \<in> set (observers dm)"
    unfolding accounted_def by blast
  show "\<exists>io. lookup (h_observer h) (constructed (handle_disconnect d dm)) = Some io
      \<and> (0 < io_disconnects io \<or> (h_id h, h_observer h) \<in> set (observers (handle_disconnect d dm)))"
  proof (cases "h_observer h = h_observer d")
    case True
    with io have "lookup (h_observer h) (constructed (handle_disconnect d dm)) = Some (native_disconnect io)"
      by (simp add: handle_disconnect_def lookup_modify_same)
    moreover have "0 < io_disconnects (native_disconnect io)"
      by (simp add: native_disconnect_def)
    ultimately show ?thesis by blast
  next
    case False
    with io have l: "lookup (h_observer h) (constructed (handle_disconnect d dm)) = Some io"
      by (simp add: handle_disconnect_def lookup_modify_other)
    from False ids h have "h_id h \<noteq> h_id d" by blast
    then have "(h_id h, h_observer h) \<in> set (observers dm) \<Longrightarrow>
        (h_id h, h_observer h) \<in> set (observers (handle_disconnect d dm))"
      by (simp add: handle_disconnect_def map_delete_def)
    with alt l show ?thesis by blast
  qed
qed

lemma accounted_fold_disconnect:
  assumes "accounted hs dm"
    and "\<forall>d \<in> set ds. \<forall>h \<in> set hs. h_id h = h_id d \<longrightarrow> h_observer h = h_observer d"
  shows "accounted hs (fold handle_disconnect ds dm)"
  using assms
proof (induction ds arbitrary: dm)
  case Nil
  then show ?case by simp
next
  case (Cons d ds)
  have a1: "accounted hs (handle_disconnect d dm)"
  proof (rule accounted_handle_disconnect)
    show "accounted hs dm" by (rule Cons.prems(1))
    show "\<forall>h \<in> set hs. h_id h = h_id d \<longrightarrow> h_observer h = h_observer d"
      using Cons.prems(2) by simp
  qed
  have rest: "\<forall>d \<in> set ds. \<forall>h \<in> set hs. h_id h = h_id d \<longrightarrow> h_observer h = h_observer d"
    using Cons.prems(2) by simp
  from Cons.IH[OF a1 rest] show ?case by simp
qed

lemma accounted_cleanup:
  assumes "accounted hs dm" and "h \<in> set hs"
  shows "\<exists>io. lookup (h_observer h) (constructed (cleanup dm)) = Some io \<and> 0 < io_disconnects io"
proof -
  from assms obtain io where io: "lookup (h_observer h) (constructed dm) = Some io"
    and alt: "0 < io_disconnects io \<or> (h_id h, h_observer h) \<in> set (observers dm)"
    unfolding accounted_def by blast
  from alt show ?thesis
  proof
    assume "0 < io_disconnects io"
    from disconnects_grow[OF io this] show ?thesis by (simp add: cleanup_def)
  next
    assume "(h_id h, h_observer h) \<in> set (observers dm)"
    from registered_is_disconnected[OF this io] show ?thesis
      by (auto simp: cleanup_def)
  qed
qed

text \<open>
  The handles are registered under their identifiers whenever the generated identifiers
  are pairwise distinct.
\<close>

lemma create_all_keeps_other_keys:
  "create_all reqs dm0 = (hs, dm) \<Longrightarrow>
   k \<notin> set (map (\<lambda>(callback, options, observerId). observerId) reqs) \<Longrightarrow>
   map_of (observers dm) k = map_of (observers dm0) k"
proof (induction reqs arbitrary: dm0 hs dm)
  case Nil
  then show ?case by simp
next
  case (Cons req reqs)
  obtain callback options observerId where req: "req = (callback, options, observerId)"
    by (cases req) auto
  obtain h dm1 where c: "createIntersectionObserver callback options observerId dm0 = (h, dm1)"
    by (cases "createIntersectionObserver callback options observerId dm0")
  obtain hs' dm2 where r: "create_all reqs dm1 = (hs', dm2)"
    by (cases "create_all reqs dm1")
  from Cons.prems(1) req c r have eq: "dm = dm2" by simp
  have set: "map_of (map_set a b kvs) k = (if k = a then Some b else map_of kvs k)"
    for a :: string and b :: nat and kvs
    by (induction kvs) auto
  from Cons.prems(2) req have k: "k \<noteq> observerId"
    and rest: "k \<notin> set (map (\<lambda>(callback, options, observerId). observerId) reqs)"
    by auto
  from c have "observers dm1 = map_set observerId (length (constructed dm0)) (observers dm0)"
    by (auto simp: createIntersectionObserver_def Let_def)
  then have "map_of (observers dm1) k = map_of (observers dm0) k"
    using k by (simp add: set)
  with Cons.IH[OF r rest] show ?case by (simp add: eq)
qed

lemma distinct_ids_reachable:
  "create_all reqs dm0 = (hs, dm) \<Longrightarrow>
   distinct (map (\<lambda>(callback, options, observerId). observerId) reqs) \<Longrightarrow>
   \<forall>h \<in> set hs. map_of (observers dm) (h_id h) = Some (h_observer h)"
proof (induction reqs arbitrary: dm0 hs dm)
  case Nil
  then show ?case by simp
next
  case (Cons req reqs)
  obtain callback options observerId where req: "req = (callback, options, observerId)"
    by (cases req) auto
  obtain h dm1 where c: "createIntersectionObserver callback options observerId dm0 = (h, dm1)"
    by (cases "createIntersectionObserver callback options observerId dm0")
  obtain hs' dm2 where r: "create_all reqs dm1 = (hs', dm2)"
    by (cases "create_all reqs dm1")
  from Cons.prems(1) req c r have eq: "hs = h # hs'" "dm = dm2" by simp_all
  from Cons.prems(2) req
  have new: "observerId \<notin> set (map (\<lambda>(callback, options, observerId). observerId) reqs)"
    and dist: "distinct (map (\<lambda>(callback, options, observerId). observerId) reqs)"
    by auto
  have set: "map_of (map_set a b kvs) a = Some b" for a :: string and b :: nat and kvs
    by (induction kvs) auto
  from c have h: "h_observer h = length (constructed dm0)" "h_id h = observerId"
    and "observers dm1 = map_set observerId (length (constructed dm0)) (observers dm0)"
    by (auto simp: createIntersectionObserver_def Let_def)
  then have "map_of (observers dm1) (h_id h) = Some (h_observer h)"
    by (simp add: set)
  with create_all_keeps_other_keys[OF r new] have "map_of (observers dm2) (h_id h) = Some (h_observer h)"
    by (simp add: h)
  with Cons.IH[OF r dist] show ?case by (simp add: eq)
qed

text \<open>A handle's own \<open>disconnect\<close> disconnects its observer and takes its identifier out of the registry.\<close>

lemma handle_disconnect_effect:
  assumes "lookup (h_observer h) (constructed dm) = Some io"
  shows "lookup (h_observer h) (constructed (handle_disconnect h dm)) = Some (native_disconnect io)"
    and "map_of (observers (handle_disconnect h dm)) (h_id h) = None"
proof -
  show "lookup (h_observer h) (constructed (handle_disconnect h dm)) = Some (native_disconnect io)"
    using assms by (simp add: handle_disconnect_def lookup_modify_same)
  have "map_of (filter (\<lambda>kv. fst kv \<noteq> k) kvs) k = None" for k :: string and kvs :: "(string \<times> nat) list"
    by (induction kvs) auto
  then show "map_of (observers (handle_disconnect h dm)) (h_id h) = None"
    by (simp add: handle_disconnect_def map_delete_def)
qed

text \<open>
  C5, as stated, fails when the factory generates an identifier twice: \<open>Map.set\<close> replaces
  the earlier observer in the registry, the earlier handle is no longer reachable there, and
  \<open>cleanup\<close> does not disconnect its observer.
\<close>

theorem cleanup_misses_replaced_observer:
  "map h_observer (fst (create_all
       [((), \<lparr>opt_threshold = None, opt_rootMargin = None\<rparr>, ''observer_0_i''),
        ((), \<lparr>opt_threshold = None, opt_rootMargin = None\<rparr>, ''observer_0_i'')]
       new_DOMManager)) = [0, 1]
   \<and> observers (snd (create_all
       [((), \<lparr>opt_threshold = None, opt_rootMargin = None\<rparr>, ''observer_0_i''),
        ((), \<lparr>opt_threshold = None, opt_rootMargin = None\<rparr>, ''observer_0_i'')]
       new_DOMManager)) = [(''observer_0_i'', 1)]
   \<and> map io_disconnects (constructed (cleanup (snd (create_all
       [((), \<lparr>opt_threshold = None, opt_rootMargin = None\<rparr>, ''observer_0_i''),
        ((), \<lparr>opt_threshold = None, opt_rootMargin = None\<rparr>, ''observer_0_i'')]
       new_DOMManager)))) = [0, 1]"
  by (simp add: createIntersectionObserver_def new_DOMManager_def Let_def cleanup_def
      native_disconnect_def new_IntersectionObserver_def)

text \<open>
  C5, amended. After \<open>k\<close> calls of the factory that generated pairwise distinct identifiers,
  every handle is registered in the registry under its identifier; the \<open>k\<close> handles hold \<open>k\<close>
  different observers, none disconnected yet; after \<open>cleanup\<close> the registry is empty and
  every one of the \<open>k\<close> observers has had its \<open>disconnect\<close> invoked and observes nothing. The
  registry is empty and every observer has had its \<open>disconnect\<close> invoked also when some of
  the handles had their own \<open>disconnect\<close> called before the cleanup.
\<close>

theorem cleanup_disconnects_all:
  assumes "create_all reqs dm0 = (hs, dm)"
    and "distinct (map (\<lambda>(callback, options, observerId). observerId) reqs)"
  shows "length hs = length reqs
       \<and> (\<forall>h \<in> set hs. map_of (observers dm) (h_id h) = Some (h_observer h))
       \<and> distinct (map h_observer hs)
       \<and> (\<forall>h \<in> set hs. \<exists>io. lookup (h_observer h) (constructed dm) = Some io \<and> io_disconnects io = 0)
       \<and> observers (cleanup dm) = []
       \<and> (\<forall>h \<in> set hs. \<exists>io. lookup (h_observer h) (constructed (cleanup dm)) = Some io
              \<and> 0 < io_disconnects io \<and> io_targets io = [])
       \<and> (set ds \<subseteq> set hs \<longrightarrow>
            observers (cleanup (fold handle_disconnect ds dm)) = []
            \<and> (\<forall>h \<in> set hs. \<exists>io.
                  lookup (h_observer h) (constructed (cleanup (fold handle_disconnect ds dm))) = Some io
                  \<and> 0 < io_disconnects io))"
proof -
  let ?n = "length (constructed dm0)"
  let ?new = "map (\<lambda>(callback, options, observerId). new_IntersectionObserver callback options) reqs"
  have reach: "\<forall>h \<in> set hs. map_of (observers dm) (h_id h) = Some (h_observer h)"
    using assms by (rule distinct_ids_reachable)
  from create_all_result[OF assms(1)]
  have con: "constructed dm = constructed dm0 @ ?new"
    and refs: "map h_observer hs = [?n..<?n + length reqs]"
    by simp_all
  from refs have len: "length hs = length reqs"
    by (metis add_diff_cancel_left' length_map length_upt)
  from refs have dist: "distinct (map h_observer hs)" by simp
  have range: "?n \<le> h_observer h \<and> h_observer h < ?n + length reqs" if "h \<in> set hs" for h
  proof -
    from that have "h_observer h \<in> set (map h_observer hs)" by simp
    then show ?thesis unfolding refs by simp
  qed
  have fresh: "\<exists>io. lookup (h_observer h) (constructed dm) = Some io \<and> io_disconnects io = 0"
    if "h \<in> set hs" for h
  proof -
    from range[OF that] obtain i where i: "h_observer h = ?n + i" "i < length reqs"
      by (metis le_Suc_ex nat_add_left_cancel_less)
    then obtain req where "lookup i reqs = Some req"
      using lookup_in_range by blast
    then have "lookup (h_observer h) (constructed dm)
        = Some ((\<lambda>(callback, options, observerId). new_IntersectionObserver callback options) req)"
      by (simp add: con i lookup_append_right lookup_map)
    then show ?thesis
      by (cases req) (auto simp: new_IntersectionObserver_def)
  qed
  have reg: "(h_id h, h_observer h) \<in> set (observers dm)" if "h \<in> set hs" for h
  proof -
    from reach that have "map_of (observers dm) (h_id h) = Some (h_observer h)" by blast
    then show ?thesis by (rule map_of_SomeD)
  qed
  have disc: "\<exists>io. lookup (h_observer h) (constructed (cleanup dm)) = Some io
      \<and> 0 < io_disconnects io \<and> io_targets io = []" if "h \<in> set hs" for h
  proof -
    from fresh[OF that] obtain io where "lookup (h_observer h) (constructed dm) = Some io" by blast
    from registered_is_disconnected[OF reg[OF that] this] show ?thesis
      by (simp add: cleanup_def)
  qed
  have acc: "accounted hs dm"
    unfolding accounted_def using fresh reg by blast
  have early: "observers (cleanup (fold handle_disconnect ds dm)) = []
      \<and> (\<forall>h \<in> set hs. \<exists>io.
            lookup (h_observer h) (constructed (cleanup (fold handle_disconnect ds dm))) = Some io
            \<and> 0 < io_disconnects io)" if sub: "set ds \<subseteq> set hs"
  proof -
    have ids: "\<forall>d \<in> set ds. \<forall>h \<in> set hs. h_id h = h_id d \<longrightarrow> h_observer h = h_observer d"
    proof (intro ballI impI)
      fix d h assume d: "d \<in> set ds" and h: "h \<in> set hs" and eq: "h_id h = h_id d"
      from d sub have "d \<in> set hs" by blast
      with reach have "map_of (observers dm) (h_id d) = Some (h_observer d)" by blast
      moreover from reach h have "map_of (observers dm) (h_id h) = Some (h_observer h)" by blast
      ultimately show "h_observer h = h_observer d" using eq by simp
    qed
    have "accounted hs (fold handle_disconnect ds dm)"
      using acc ids by (rule accounted_fold_disconnect)
    then have "\<forall>h \<in> set hs. \<exists>io.
        lookup (h_observer h) (constructed (cleanup (fold handle_disconnect ds dm))) = Some io
        \<and> 0 < io_disconnects io"
      using accounted_cleanup by blast
    moreover have "observers (cleanup (fold handle_disconnect ds dm)) = []"
      by (simp add: cleanup_def)
    ultimately show ?thesis by blast
  qed
  have "observers (cleanup dm) = []" by (simp add: cleanup_def)
  with len reach dist fresh disc early show ?thesis by blast
qed

theorem cleanup_disconnects_all_witness:
  "map h_id (fst (create_all
       [((), \<lparr>opt_threshold = None, opt_rootMargin = None\<rparr>, ''observer_1_a''),
        ((), \<lparr>opt_threshold = Some (1 / 2), opt_rootMargin = None\<rparr>, ''observer_1_b'')]
       new_DOMManager))
     = [''observer_1_a'', ''observer_1_b'']
   \<and> map (map_of (observers (snd (create_all
       [((), \<lparr>opt_threshold = None, opt_rootMargin = None\<rparr>, ''observer_1_a''),
        ((), \<lparr>opt_threshold = Some (1 / 2), opt_rootMargin = None\<rparr>, ''observer_1_b'')]
       new_DOMManager)))) [''observer_1_a'', ''observer_1_b'']
     = [Some 0, Some 1]
   \<and> observers (cleanup (snd (create_all
       [((), \<lparr>opt_threshold = None, opt_rootMargin = None\<rparr>, ''observer_1_a''),
        ((), \<lparr>opt_threshold = Some (1 / 2), opt_rootMargin = None\<rparr>, ''observer_1_b'')]
       new_DOMManager))) = []
   \<and> map io_disconnects (constructed (cleanup (snd (create_all
       [((), \<lparr>opt_threshold = None, opt_rootMargin = None\<rparr>, ''observer_1_a''),
        ((), \<lparr>opt_threshold = Some (1 / 2), opt_rootMargin = None\<rparr>, ''observer_1_b'')]
       new_DOMManager)))) = [1, 1]
   \<and> map io_disconnects (constructed (cleanup (handle_disconnect
       \<lparr>h_observer = 0, h_id = ''observer_1_a''\<rparr>
       (snd (create_all
       [((), \<lparr>opt_threshold = None, opt_rootMargin = None\<rparr>, ''observer_1_a''),
        ((), \<lparr>opt_threshold = Some (1 / 2), opt_rootMargin = None\<rparr>, ''observer_1_b'')]
       new_DOMManager))))) = [1, 1]"
proof -
  let ?reqs = "[((), \<lparr>opt_threshold = None, opt_rootMargin = None\<rparr>, ''observer_1_a''),
        ((), \<lparr>opt_threshold = Some (1 / 2), opt_rootMargin = None\<rparr>, ''observer_1_b'')]"
  let ?hs = "[\<lparr>h_observer = 0, h_id = ''observer_1_a''\<rparr>, \<lparr>h_observer = Suc 0, h_id = ''observer_1_b''\<rparr>]"
  let ?dm = "\<lparr>constructed =
        [new_IntersectionObserver () \<lparr>opt_threshold = None, opt_rootMargin = None\<rparr>,
         new_IntersectionObserver () \<lparr>opt_threshold = Some (1 / 2), opt_rootMargin = None\<rparr>],
      observers = [(''observer_1_a'', 0), (''observer_1_b'', Suc 0)],
      templates = []\<rparr>"
  have c: "create_all ?reqs new_DOMManager = (?hs, ?dm)"
    by (simp add: createIntersectionObserver_def new_DOMManager_def Let_def)
  have ids: "distinct (map (\<lambda>(callback, options, observerId). observerId) ?reqs)"
    by simp
  from cleanup_disconnects_all[OF c ids, where ds = "[\<lparr>h_observer = 0, h_id = ''observer_1_a''\<rparr>]"]
  show ?thesis
    unfolding c
    by (simp add: cleanup_def handle_disconnect_def native_disconnect_def map_delete_def
        new_IntersectionObserver_def)
qed

section \<open>Properties of reveal on scroll and of reduced motion\<close>

lemma digit_char:
  assumes "d < 10"
  shows "is_digit (''0123456789'' ! d)" and "digit_value (''0123456789'' ! d) = d"
proof -
  from assms have "d \<in> {0, 1, 2, 3, 4, 5, 6, 7, 8, 9}" by auto
  then show "is_digit (''0123456789'' ! d)" and "digit_value (''0123456789'' ! d) = d"
    by (auto simp: is_digit_def digit_value_def)
qed

lemma decimal_digits: "\<forall>c \<in> set (decimal n). is_digit c"
proof (induction n rule: decimal.induct)
  case (1 n)
  show ?case
  proof (cases "n < 10")
    case True
    then show ?thesis by (subst decimal.simps) (simp add: digit_char(1))
  next
    case False
    have "n mod 10 < 10" by simp
    then have "is_digit (''0123456789'' ! (n mod 10))" by (rule digit_char(1))
    with False "1.IH" show ?thesis by (subst decimal.simps) simp
  qed
qed

lemma decimal_nonempty: "decimal n \<noteq> []"
  by (subst decimal.simps) simp

lemma digits_value_snoc:
  "digits_value radix val (ds @ [c]) = digits_value radix val ds * radix + val c"
  by (simp add: digits_value_def)

lemma digits_value_decimal: "digits_value 10 digit_value (decimal n) = n"
proof (induction n rule: decimal.induct)
  case (1 n)
  show ?case
  proof (cases "n < 10")
    case True
    then show ?thesis
      by (subst decimal.simps) (simp add: digits_value_def digit_char(2))
  next
    case False
    have "n mod 10 < 10" by simp
    then have "digit_value (''0123456789'' ! (n mod 10)) = n mod 10" by (rule digit_char(2))
    with False "1.IH" show ?thesis
      by (subst decimal.simps) (simp add: digits_value_snoc)
  qed
qed

lemma parseInt_decimal: "parseInt (decimal n) = Some (int n)"
  using parseInt_digits[OF decimal_digits, of n]
  by (simp add: decimal_nonempty digits_value_decimal)

lemma show_int_nat: "show_int (int n) = decimal n"
  by (simp add: show_int_def)

lemma addClass_fields [simp]:
  "el_stagger (addClass c el) = el_stagger el"
  "el_transitionDelay (addClass c el) = el_transitionDelay el"
  by (simp_all add: addClass_def)

lemma addClass_keeps: "x \<in> set (el_classList el) \<Longrightarrow> x \<in> set (el_classList (addClass c el))"
  by (simp add: addClass_def)

lemma addClass_active: "''active'' \<in> set (el_classList (addClass ''active'' el))"
  by (simp add: addClass_def)

lemma reveal_entry_at:
  "reveal_entry e st r =
     (if isIntersecting e \<and> entry_target e = r
      then (case el_stagger (st r) of
              None \<Rightarrow> addClass ''active'' (st r)
            | Some s \<Rightarrow>
                if s = [] then addClass ''active'' (st r)
                else (case parseInt s of
                        None \<Rightarrow> addClass ''active'' (st r)
                      | Some n \<Rightarrow> (addClass ''active'' (st r))
                          \<lparr>el_transitionDelay := show_int (n * 100) @ ''ms''\<rparr>))
      else st r)"
  by (simp add: reveal_entry_def Let_def)

lemma reveal_entry_stagger: "el_stagger (reveal_entry e st r) = el_stagger (st r)"
  by (simp add: reveal_entry_at split: option.split)

lemma reveal_entry_active:
  "''active'' \<in> set (el_classList (st r)) \<Longrightarrow> ''active'' \<in> set (el_classList (reveal_entry e st r))"
  by (simp add: reveal_entry_at addClass_active split: option.split)

lemma reveal_entry_marks:
  assumes "isIntersecting e" and "entry_target e = r"
  shows "''active'' \<in> set (el_classList (reveal_entry e st r))"
    and "el_stagger (st r) = Some (decimal k) \<Longrightarrow>
         el_transitionDelay (reveal_entry e st r) = decimal (k * 100) @ ''ms''"
proof -
  show "''active'' \<in> set (el_classList (reveal_entry e st r))"
    using assms by (simp add: reveal_entry_at addClass_active split: option.split)
  assume "el_stagger (st r) = Some (decimal k)"
  moreover have "show_int (int k * 100) = decimal (k * 100)"
    using show_int_nat[of "k * 100"] by simp
  ultimately show "el_transitionDelay (reveal_entry e st r) = decimal (k * 100) @ ''ms''"
    using assms by (simp add: reveal_entry_at decimal_nonempty parseInt_decimal)
qed

lemma reveal_entry_keeps_delay:
  assumes "el_stagger (st r) = Some (decimal k)"
    and "el_transitionDelay (st r) = decimal (k * 100) @ ''ms''"
  shows "el_transitionDelay (reveal_entry e st r) = decimal (k * 100) @ ''ms''"
proof -
  have "show_int (int k * 100) = decimal (k * 100)"
    using show_int_nat[of "k * 100"] by simp
  then show ?thesis
    using assms by (simp add: reveal_entry_at decimal_nonempty parseInt_decimal)
qed

lemma revealCallback_stagger: "el_stagger (revealCallback es st r) = el_stagger (st r)"
  unfolding revealCallback_def
  by (induction es arbitrary: st) (simp_all add: reveal_entry_stagger)

lemma revealCallback_active:
  "''active'' \<in> set (el_classList (st r)) \<Longrightarrow> ''active'' \<in> set (el_classList (revealCallback es st r))"
  unfolding revealCallback_def
  by (induction es arbitrary: st) (simp_all add: reveal_entry_active)

lemma revealCallback_keeps_delay:
  "el_stagger (st r) = Some (decimal k) \<Longrightarrow>
   el_transitionDelay (st r) = decimal (k * 100) @ ''ms'' \<Longrightarrow>
   el_transitionDelay (revealCallback es st r) = decimal (k * 100) @ ''ms''"
  unfolding revealCallback_def
  by (induction es arbitrary: st) (simp_all add: reveal_entry_keeps_delay reveal_entry_stagger)

lemma revealCallback_marks:
  assumes "e \<in> set es" and "isIntersecting e" and "entry_target e = r"
  shows "''active'' \<in> set (el_classList (revealCallback es st r))"
    and "el_stagger (st r) = Some (decimal k) \<Longrightarrow>
         el_transitionDelay (revealCallback es st r) = decimal (k * 100) @ ''ms''"
proof -
  from assms(1) obtain xs ys where es: "es = xs @ e # ys" by (auto dest: split_list)
  let ?st1 = "revealCallback xs st"
  let ?st2 = "reveal_entry e ?st1"
  have run: "revealCallback es st = revealCallback ys ?st2"
    by (simp add: es revealCallback_def)
  show "''active'' \<in> set (el_classList (revealCallback es st r))"
    unfolding run by (rule revealCallback_active) (rule reveal_entry_marks(1)[OF assms(2,3)])
  assume "el_stagger (st r) = Some (decimal k)"
  then have s1: "el_stagger (?st1 r) = Some (decimal k)" by (simp add: revealCallback_stagger)
  then have s2: "el_stagger (?st2 r) = Some (decimal k)" by (simp add: reveal_entry_stagger)
  have "el_transitionDelay (?st2 r) = decimal (k * 100) @ ''ms''"
    using s1 by (rule reveal_entry_marks(2)[OF assms(2,3)])
  with s2 show "el_transitionDelay (revealCallback es st r) = decimal (k * 100) @ ''ms''"
    unfolding run by (rule revealCallback_keeps_delay)
qed

lemma native_observe_fields [simp]:
  "io_callback (native_observe el io) = io_callback io"
  "io_threshold (native_observe el io) = io_threshold io"
  "io_rootMargin (native_observe el io) = io_rootMargin io"
  "set (io_targets (native_observe el io)) = insert el (set (io_targets io))"
  by (auto simp: native_observe_def)

lemma fold_native_observe:
  "io_callback (fold native_observe rs io) = io_callback io"
  "io_threshold (fold native_observe rs io) = io_threshold io"
  "io_rootMargin (fold native_observe rs io) = io_rootMargin io"
  "set (io_targets (fold native_observe rs io)) = set rs \<union> set (io_targets io)"
  by (induction rs arbitrary: io) auto

lemma fold_handle_observe_single:
  "constructed dm = [io] \<Longrightarrow> h_observer h = 0 \<Longrightarrow>
   constructed (fold (handle_observe h) rs dm) = [fold native_observe rs io]"
  by (induction rs arbitrary: dm io) (simp_all add: handle_observe_def)

lemma setupScrollReveal_observer:
  assumes "mw_dom w0 = new_DOMManager"
  shows "constructed (mw_dom (setupScrollReveal False oid w0))
      = [fold native_observe (reveal_elements w0)
           (new_IntersectionObserver revealCallback
              \<lparr>opt_threshold = Some (1 / 10), opt_rootMargin = Some ''0px 0px -100px 0px''\<rparr>)]"
    and "mw_elements (setupScrollReveal False oid w0) = mw_elements w0"
proof -
  let ?io = "new_IntersectionObserver revealCallback
      \<lparr>opt_threshold = Some (1 / 10), opt_rootMargin = Some ''0px 0px -100px 0px''\<rparr>"
  let ?h = "\<lparr>h_observer = 0, h_id = oid\<rparr>"
  let ?dm = "(new_DOMManager :: callback dom_manager)\<lparr>constructed := [?io], observers := [(oid, 0)]\<rparr>"
  have c: "createIntersectionObserver revealCallback
      \<lparr>opt_threshold = Some (1 / 10), opt_rootMargin = Some ''0px 0px -100px 0px''\<rparr> oid (mw_dom w0)
      = (?h, ?dm)"
    by (simp add: createIntersectionObserver_def assms new_DOMManager_def Let_def)
  have "constructed (fold (handle_observe ?h) (reveal_elements w0) ?dm)
      = [fold native_observe (reveal_elements w0) ?io]"
    by (rule fold_handle_observe_single) simp_all
  then show "constructed (mw_dom (setupScrollReveal False oid w0))
      = [fold native_observe (reveal_elements w0) ?io]"
    by (simp add: setupScrollReveal_def c)
  show "mw_elements (setupScrollReveal False oid w0) = mw_elements w0"
    by (simp add: setupScrollReveal_def c)
qed

lemma intersect_dom [simp]: "mw_dom (intersect ref entries w) = mw_dom w"
  by (simp add: intersect_def split: option.split)

lemma intersections_dom [simp]: "mw_dom (intersections evs w) = mw_dom w"
  unfolding intersections_def
  by (induction evs arbitrary: w) (simp_all add: case_prod_unfold)

lemma lookup_single: "lookup ref [x] = Some y \<Longrightarrow> ref = 0 \<and> y = x"
  by (cases ref) simp_all

text \<open>While the reveal observer is the only observer, an intersection event runs its callback or nothing.\<close>

lemma intersect_reveal_only:
  assumes "constructed (mw_dom w) = [io]" and "io_callback io = revealCallback"
  shows "el_stagger (mw_elements (intersect ref entries w) r) = el_stagger (mw_elements w r)"
    and "''active'' \<in> set (el_classList (mw_elements w r)) \<Longrightarrow>
         ''active'' \<in> set (el_classList (mw_elements (intersect ref entries w) r))"
proof -
  show "el_stagger (mw_elements (intersect ref entries w) r) = el_stagger (mw_elements w r)"
    using assms
    by (auto simp: intersect_def revealCallback_stagger split: option.split dest!: lookup_single)
  assume "''active'' \<in> set (el_classList (mw_elements w r))"
  then show "''active'' \<in> set (el_classList (mw_elements (intersect ref entries w) r))"
    using assms
    by (auto simp: intersect_def revealCallback_active split: option.split dest!: lookup_single)
qed

lemma intersections_reveal_only:
  assumes "constructed (mw_dom w) = [io]" and "io_callback io = revealCallback"
  shows "el_stagger (mw_elements (intersections evs w) r) = el_stagger (mw_elements w r)"
    and "''active'' \<in> set (el_classList (mw_elements w r)) \<Longrightarrow>
         ''active'' \<in> set (el_classList (mw_elements (intersections evs w) r))"
proof -
  have both: "el_stagger (mw_elements (intersections evs w) r) = el_stagger (mw_elements w r)
      \<and> (''active'' \<in> set (el_classList (mw_elements w r)) \<longrightarrow>
           ''active'' \<in> set (el_classList (mw_elements (intersections evs w) r)))"
    using assms(1)
  proof (induction evs arbitrary: w)
    case Nil
    then show ?case by (simp add: intersections_def)
  next
    case (Cons ev evs)
    obtain ref entries where ev: "ev = (ref, entries)" by (cases ev)
    have step: "intersections (ev # evs) w = intersections evs (intersect ref entries w)"
      by (simp add: intersections_def ev)
    have dom: "constructed (mw_dom (intersect ref entries w)) = [io]"
      using Cons.prems by simp
    from Cons.IH[OF dom] intersect_reveal_only[OF Cons.prems assms(2), where ref = ref and entries = entries and r = r]
    show ?case unfolding step by simp
  qed
  from both show "el_stagger (mw_elements (intersections evs w) r) = el_stagger (mw_elements w r)"
    by blast
  assume "''active'' \<in> set (el_classList (mw_elements w r))"
  with both show "''active'' \<in> set (el_classList (mw_elements (intersections evs w) r))"
    by blast
qed

lemma reveal_margin_parsed: "parse_rootMargin ''0px 0px -100px 0px'' = Some (0, 0, - 100, 0)"
  by code_simp

lemma reveal_rootBounds:
  "rootBounds ''0px 0px -100px 0px'' v = Some (v\<lparr>r_bottom := r_bottom v - 100\<rparr>)"
  by (simp add: rootBounds_def reveal_margin_parsed)

lemma meets_shortened:
  "meets (v\<lparr>r_bottom := r_bottom v - 100\<rparr>) t \<Longrightarrow> r_top t \<le> r_bottom v - 100"
  by (simp add: meets_def)

lemma revealCallback_skips:
  "\<forall>e \<in> set es. entry_target e = r \<longrightarrow> \<not> isIntersecting e \<Longrightarrow> revealCallback es st r = st r"
  unfolding revealCallback_def
proof (induction es arbitrary: st)
  case Nil
  then show ?case by simp
next
  case (Cons a es)
  from Cons.prems have a: "\<not> (isIntersecting a \<and> entry_target a = r)"
    and rest: "\<forall>e \<in> set es. entry_target e = r \<longrightarrow> \<not> isIntersecting e"
    by auto
  have "fold reveal_entry (a # es) st r = fold reveal_entry es (reveal_entry a st) r" by simp
  also have "\<dots> = reveal_entry a st r" using Cons.IH[OF rest] .
  also have "\<dots> = st r" using a by (simp only: reveal_entry_at if_False)
  finally show ?case .
qed

lemma intersect_skips:
  assumes "constructed (mw_dom w) = [io]" and "io_callback io = revealCallback"
    and "\<forall>e \<in> set entries. entry_target e = r \<longrightarrow> \<not> isIntersecting e"
  shows "mw_elements (intersect ref entries w) r = mw_elements w r"
proof (cases "lookup ref (constructed (mw_dom w))")
  case None
  then show ?thesis by (simp add: intersect_def)
next
  case (Some io')
  with assms(1) have "io' = io" using lookup_single by fastforce
  with Some assms(2,3) show ?thesis
    by (simp add: intersect_def revealCallback_skips)
qed

lemma notify_dom [simp]: "mw_dom (notify ref layout previous viewport w) = mw_dom w"
  by (simp add: notify_def Let_def split: option.split)

lemma map_filter_entries:
  "e \<in> set (List.map_filter (browser_entry io v layout) rs) \<Longrightarrow>
   \<exists>r \<in> set rs. browser_entry io v layout r = Some e"
  by (auto simp: List.map_filter_def)

lemma browser_entry_target: "browser_entry io v layout r = Some e \<Longrightarrow> entry_target e = r"
  by (auto simp: browser_entry_def split: option.splits)

lemma notify_skips:
  assumes con: "constructed (mw_dom w) = [io]" and cb: "io_callback io = revealCallback"
    and rm: "io_rootMargin io = ''0px 0px -100px 0px''"
    and far: "r_bottom viewport - 100 < r_top (layout r)"
  shows "mw_elements (notify ref layout previous viewport w) r = mw_elements w r"
proof (cases "lookup ref (constructed (mw_dom w))")
  case None
  then show ?thesis by (simp add: notify_def)
next
  case (Some io')
  with con have io': "io' = io" using lookup_single by fastforce
  let ?changed = "filter (\<lambda>r. case previous of None \<Rightarrow> True
      | Some v \<Rightarrow> browser_entry io v layout r \<noteq> browser_entry io viewport layout r) (io_targets io)"
  let ?entries = "List.map_filter (browser_entry io viewport layout) ?changed"
  have "\<forall>e \<in> set ?entries. entry_target e = r \<longrightarrow> \<not> isIntersecting e"
  proof (intro ballI impI)
    fix e assume e: "e \<in> set ?entries" and t: "entry_target e = r"
    from map_filter_entries[OF e] obtain r' where r': "browser_entry io viewport layout r' = Some e"
      by blast
    from browser_entry_target[OF r'] t have "r' = r" by simp
    with r' have "isIntersecting e
        = is_intersecting (io_threshold io) (viewport\<lparr>r_bottom := r_bottom viewport - 100\<rparr>) (layout r)"
      by (auto simp: browser_entry_def rm reveal_rootBounds)
    with far meets_shortened show "\<not> isIntersecting e"
      unfolding is_intersecting_def by fastforce
  qed
  from intersect_skips[OF con cb this] Some io' show ?thesis
    by (simp add: notify_def Let_def)
qed

lemma scroll_dom [simp]: "mw_dom (scroll ref layout previous viewports w) = mw_dom w"
  by (induction viewports arbitrary: previous w) simp_all

lemma scroll_skips:
  assumes "constructed (mw_dom w) = [io]" and "io_callback io = revealCallback"
    and "io_rootMargin io = ''0px 0px -100px 0px''"
    and "\<forall>v \<in> set viewports. r_bottom v - 100 < r_top (layout r)"
  shows "mw_elements (scroll ref layout previous viewports w) r = mw_elements w r"
  using assms
proof (induction viewports arbitrary: previous w)
  case Nil
  then show ?case by simp
next
  case (Cons v vs)
  have con: "constructed (mw_dom (notify ref layout previous v w)) = [io]"
    using Cons.prems(1) by simp
  have "mw_elements (scroll ref layout (Some v) vs (notify ref layout previous v w)) r
      = mw_elements (notify ref layout previous v w) r"
    using Cons.IH[OF con Cons.prems(2,3)] Cons.prems(4) by simp
  also have "\<dots> = mw_elements w r"
    using notify_skips[OF Cons.prems(1,2,3)] Cons.prems(4) by simp
  finally show ?case by simp
qed

lemma reveal_browser_entry:
  assumes "io_rootMargin io = ''0px 0px -100px 0px''" and "io_threshold io = 1 / 10"
  shows "browser_entry io viewport layout r
      = Some \<lparr>isIntersecting = is_intersecting (1 / 10) (viewport\<lparr>r_bottom := r_bottom viewport - 100\<rparr>) (layout r), entry_target = r\<rparr>"
  by (simp add: browser_entry_def assms reveal_rootBounds)

lemma notify_reveal_only:
  assumes "constructed (mw_dom w) = [io]" and "io_callback io = revealCallback"
  shows "el_stagger (mw_elements (notify ref layout previous viewport w) r) = el_stagger (mw_elements w r)"
    and "''active'' \<in> set (el_classList (mw_elements w r)) \<Longrightarrow>
         ''active'' \<in> set (el_classList (mw_elements (notify ref layout previous viewport w) r))"
  using intersect_reveal_only[OF assms]
  by (simp_all add: notify_def Let_def split: option.split)

lemma scroll_reveal_only:
  assumes "constructed (mw_dom w) = [io]" and "io_callback io = revealCallback"
  shows "el_stagger (mw_elements (scroll ref layout previous viewports w) r) = el_stagger (mw_elements w r)"
    and "''active'' \<in> set (el_classList (mw_elements w r)) \<Longrightarrow>
         ''active'' \<in> set (el_classList (mw_elements (scroll ref layout previous viewports w) r))"
  using assms
proof (induction viewports arbitrary: previous w)
  case Nil
  { case 1 show ?case by simp }
  { case 2 then show ?case by simp }
next
  case (Cons v vs)
  { case 1
    have con: "constructed (mw_dom (notify ref layout previous v w)) = [io]" using 1(1) by simp
    show ?case using Cons.IH(1)[OF con 1(2)] notify_reveal_only(1)[OF 1] by simp }
  { case 2
    have con: "constructed (mw_dom (notify ref layout previous v w)) = [io]" using 2(2) by simp
    show ?case using Cons.IH(2)[OF _ con 2(3)] notify_reveal_only(2)[OF 2(2,3) 2(1)] by simp }
qed

lemma notify_marks:
  assumes con: "constructed (mw_dom w) = [io]" and cb: "io_callback io = revealCallback"
    and rm: "io_rootMargin io = ''0px 0px -100px 0px''" and th: "io_threshold io = 1 / 10"
    and tg: "r \<in> set (io_targets io)"
    and ins: "is_intersecting (1 / 10) (viewport\<lparr>r_bottom := r_bottom viewport - 100\<rparr>) (layout r)"
    and prev: "case previous of None \<Rightarrow> True | Some p \<Rightarrow> \<not> is_intersecting (1 / 10) (p\<lparr>r_bottom := r_bottom p - 100\<rparr>) (layout r)"
  shows "''active'' \<in> set (el_classList (mw_elements (notify 0 layout previous viewport w) r))"
    and "el_stagger (mw_elements w r) = Some (decimal k) \<Longrightarrow>
         el_transitionDelay (mw_elements (notify 0 layout previous viewport w) r) = decimal (k * 100) @ ''ms''"
proof -
  let ?changed = "filter (\<lambda>r. case previous of None \<Rightarrow> True
      | Some v \<Rightarrow> browser_entry io v layout r \<noteq> browser_entry io viewport layout r) (io_targets io)"
  let ?entries = "List.map_filter (browser_entry io viewport layout) ?changed"
  note be = reveal_browser_entry[OF rm th]
  have ch: "r \<in> set ?changed"
    using tg prev ins by (cases previous) (simp_all add: be)
  have "browser_entry io viewport layout r = Some \<lparr>isIntersecting = True, entry_target = r\<rparr>"
    using ins by (simp add: be)
  with ch have mem: "\<lparr>isIntersecting = True, entry_target = r\<rparr> \<in> set ?entries"
    unfolding List.map_filter_def by force
  then have ne: "?entries \<noteq> []" by auto
  let ?es = "filter (\<lambda>e. entry_target e \<in> set (io_targets io)) ?entries"
  from mem tg have m2: "\<lparr>isIntersecting = True, entry_target = r\<rparr> \<in> set ?es" by simp
  have run: "mw_elements (notify 0 layout previous viewport w) = revealCallback ?es (mw_elements w)"
    using ne by (simp add: notify_def intersect_def con cb Let_def)
  show "''active'' \<in> set (el_classList (mw_elements (notify 0 layout previous viewport w) r))"
    unfolding run by (rule revealCallback_marks(1)[OF m2]) simp_all
  show "el_transitionDelay (mw_elements (notify 0 layout previous viewport w) r) = decimal (k * 100) @ ''ms''"
    if "el_stagger (mw_elements w r) = Some (decimal k)"
    unfolding run by (rule revealCallback_marks(2)[OF m2]) (simp_all add: that)
qed

lemma scroll_marks:
  assumes con: "constructed (mw_dom w) = [io]" and cb: "io_callback io = revealCallback"
    and rm: "io_rootMargin io = ''0px 0px -100px 0px''" and th: "io_threshold io = 1 / 10"
    and tg: "r \<in> set (io_targets io)"
    and ex: "\<exists>v \<in> set viewports. is_intersecting (1 / 10) (v\<lparr>r_bottom := r_bottom v - 100\<rparr>) (layout r)"
    and prev: "case previous of None \<Rightarrow> True
        | Some p \<Rightarrow> \<not> is_intersecting (1 / 10) (p\<lparr>r_bottom := r_bottom p - 100\<rparr>) (layout r) \<or> ''active'' \<in> set (el_classList (mw_elements w r))"
  shows "''active'' \<in> set (el_classList (mw_elements (scroll 0 layout previous viewports w) r))"
  using con ex prev
proof (induction viewports arbitrary: previous w)
  case Nil
  then show ?case by simp
next
  case (Cons v vs)
  let ?w' = "notify 0 layout previous v w"
  have con': "constructed (mw_dom ?w') = [io]" using Cons.prems(1) by simp
  have inv: "\<not> is_intersecting (1 / 10) (v\<lparr>r_bottom := r_bottom v - 100\<rparr>) (layout r) \<or> ''active'' \<in> set (el_classList (mw_elements ?w' r))"
  proof (cases "is_intersecting (1 / 10) (v\<lparr>r_bottom := r_bottom v - 100\<rparr>) (layout r)")
    case False
    then show ?thesis by simp
  next
    case True
    show ?thesis
    proof (cases "''active'' \<in> set (el_classList (mw_elements w r))")
      case True
      then show ?thesis using notify_reveal_only(2)[OF Cons.prems(1) cb] by simp
    next
      case False
      with Cons.prems(3)
      have "case previous of None \<Rightarrow> True | Some p \<Rightarrow> \<not> is_intersecting (1 / 10) (p\<lparr>r_bottom := r_bottom p - 100\<rparr>) (layout r)"
        by (cases previous) simp_all
      from notify_marks(1)[where layout = layout and r = r, OF Cons.prems(1) cb rm th tg True this]
      show ?thesis by simp
    qed
  qed
  show ?case
  proof (cases "\<exists>v \<in> set vs. is_intersecting (1 / 10) (v\<lparr>r_bottom := r_bottom v - 100\<rparr>) (layout r)")
    case True
    from Cons.IH[OF con' True] inv show ?thesis by simp
  next
    case False
    with Cons.prems(2) have "is_intersecting (1 / 10) (v\<lparr>r_bottom := r_bottom v - 100\<rparr>) (layout r)" by simp
    with inv have "''active'' \<in> set (el_classList (mw_elements ?w' r))" by simp
    from scroll_reveal_only(2)[OF con' cb this] show ?thesis by simp
  qed
qed

text \<open>
  C4, as stated, fails in its reading of the root margin. The bottom margin of -100px moves
  the bottom edge of the root intersection rectangle 100px up, so nothing is reported before
  the element enters the viewport: with a viewport of 1000 by 800 pixels, an element 200px
  high whose top edge is 50px below the viewport is not reported and not marked; scrolled
  100px further, with its top edge 50px inside the viewport, it is still not marked; it is
  marked once a tenth of it lies above the line 100px over the viewport's bottom edge.
\<close>

theorem reveal_triggers_inside_viewport:
  "rootBounds ''0px 0px -100px 0px'' \<lparr>r_left = 0, r_top = 0, r_right = 1000, r_bottom = 800\<rparr>
     = Some \<lparr>r_left = 0, r_top = 0, r_right = 1000, r_bottom = 700\<rparr>
   \<and> map (\<lambda>io. (io_threshold io, io_rootMargin io, io_targets io))
        (constructed (mw_dom (setupScrollReveal False ''observer_1_a''
           \<lparr>mw_dom = new_DOMManager,
            mw_elements = (\<lambda>r. \<lparr>el_classList = [''feature-card'', ''reveal''],
                el_stagger = Some ''3'', el_opacity = '''', el_transform = '''',
                el_transition = '''', el_transitionDelay = '''', el_textContent = ''''\<rparr>),
            mw_document = [7], mw_observers = []\<rparr>)))
     = [(1 / 10, ''0px 0px -100px 0px'', [7])]
   \<and> ''active'' \<notin> set (el_classList (mw_elements
        (scroll 0 (\<lambda>r. \<lparr>r_left = 0, r_top = 850, r_right = 1000, r_bottom = 1050\<rparr>) None
           [\<lparr>r_left = 0, r_top = 0, r_right = 1000, r_bottom = 800\<rparr>]
           (setupScrollReveal False ''observer_1_a''
              \<lparr>mw_dom = new_DOMManager,
               mw_elements = (\<lambda>r. \<lparr>el_classList = [''feature-card'', ''reveal''],
                   el_stagger = Some ''3'', el_opacity = '''', el_transform = '''',
                   el_transition = '''', el_transitionDelay = '''', el_textContent = ''''\<rparr>),
               mw_document = [7], mw_observers = []\<rparr>)) 7))
   \<and> ''active'' \<notin> set (el_classList (mw_elements
        (scroll 0 (\<lambda>r. \<lparr>r_left = 0, r_top = 850, r_right = 1000, r_bottom = 1050\<rparr>) None
           [\<lparr>r_left = 0, r_top = 0, r_right = 1000, r_bottom = 800\<rparr>,
            \<lparr>r_left = 0, r_top = 100, r_right = 1000, r_bottom = 900\<rparr>]
           (setupScrollReveal False ''observer_1_a''
              \<lparr>mw_dom = new_DOMManager,
               mw_elements = (\<lambda>r. \<lparr>el_classList = [''feature-card'', ''reveal''],
                   el_stagger = Some ''3'', el_opacity = '''', el_transform = '''',
                   el_transition = '''', el_transitionDelay = '''', el_textContent = ''''\<rparr>),
               mw_document = [7], mw_observers = []\<rparr>)) 7))
   \<and> ''active'' \<in> set (el_classList (mw_elements
        (scroll 0 (\<lambda>r. \<lparr>r_left = 0, r_top = 850, r_right = 1000, r_bottom = 1050\<rparr>) None
           [\<lparr>r_left = 0, r_top = 0, r_right = 1000, r_bottom = 800\<rparr>,
            \<lparr>r_left = 0, r_top = 100, r_right = 1000, r_bottom = 900\<rparr>,
            \<lparr>r_left = 0, r_top = 170, r_right = 1000, r_bottom = 970\<rparr>]
           (setupScrollReveal False ''observer_1_a''
              \<lparr>mw_dom = new_DOMManager,
               mw_elements = (\<lambda>r. \<lparr>el_classList = [''feature-card'', ''reveal''],
                   el_stagger = Some ''3'', el_opacity = '''', el_transform = '''',
                   el_transition = '''', el_transitionDelay = '''', el_textContent = ''''\<rparr>),
               mw_document = [7], mw_observers = []\<rparr>)) 7))"
proof -
  have p3: "parseInt ''3'' = Some 3" by code_simp
  show ?thesis
    by (simp add: reveal_rootBounds setupScrollReveal_def createIntersectionObserver_def
        new_DOMManager_def new_IntersectionObserver_def reveal_elements_def handle_observe_def
        native_observe_def Let_def notify_def browser_entry_def is_intersecting_def meets_def
        intersectionRatio_def intersectionRect_def area_def List.map_filter_def intersect_def
        revealCallback_def reveal_entry_def addClass_def p3)
qed

text \<open>
  C4, amended. Let \<open>setupScrollReveal\<close> run without reduced motion on a page whose element
  helper is fresh, and let \<open>r\<close> be an element of the page flagged for reveal. Then the one
  observer has the reveal callback, threshold 0.1 and root margin \<open>0px 0px -100px 0px\<close>, its
  root intersection rectangle is the viewport with the bottom edge moved 100px up, and it
  observes \<open>r\<close>. An entry that reports \<open>r\<close> as intersecting marks it active and, when \<open>r\<close> carries
  the stagger index \<open>k\<close>, sets its transition delay to \<open>k * 100\<close> ms; entries that report \<open>r\<close> as
  not intersecting leave it as it is. While the page is scrolled, \<open>r\<close> stays as it was as long
  as its top edge has not come 100px above the viewport's bottom edge, and it is marked
  active once a viewport has a tenth of it inside the shortened rectangle. Once marked
  active, \<open>r\<close> stays marked whatever is reported later.
\<close>

theorem reveal_on_first_intersection:
  assumes "mw_dom w0 = new_DOMManager"
    and "r \<in> set (mw_document w0)"
    and "''reveal'' \<in> set (el_classList (mw_elements w0 r))"
  shows "(\<exists>io. constructed (mw_dom (setupScrollReveal False oid w0)) = [io]
            \<and> io_callback io = revealCallback
            \<and> io_threshold io = 1 / 10
            \<and> io_rootMargin io = ''0px 0px -100px 0px''
            \<and> rootBounds (io_rootMargin io) viewport = Some (viewport\<lparr>r_bottom := r_bottom viewport - 100\<rparr>)
            \<and> r \<in> set (io_targets io))
       \<and> (\<lparr>isIntersecting = True, entry_target = r\<rparr> \<in> set entries \<longrightarrow>
            ''active'' \<in> set (el_classList (mw_elements
               (intersect 0 entries (intersections evs (setupScrollReveal False oid w0))) r))
            \<and> (el_stagger (mw_elements w0 r) = Some (decimal k) \<longrightarrow>
                 el_transitionDelay (mw_elements
                   (intersect 0 entries (intersections evs (setupScrollReveal False oid w0))) r)
                 = decimal (k * 100) @ ''ms''))
       \<and> ((\<forall>e \<in> set entries. entry_target e = r \<longrightarrow> \<not> isIntersecting e) \<longrightarrow>
            mw_elements (intersect 0 entries (intersections evs (setupScrollReveal False oid w0))) r
            = mw_elements (intersections evs (setupScrollReveal False oid w0)) r)
       \<and> ((\<forall>v \<in> set viewports. r_bottom v - 100 < r_top (layout r)) \<longrightarrow>
            mw_elements (scroll 0 layout None viewports (setupScrollReveal False oid w0)) r
            = mw_elements w0 r)
       \<and> ((\<exists>v \<in> set viewports.
              is_intersecting (1 / 10) (v\<lparr>r_bottom := r_bottom v - 100\<rparr>) (layout r)) \<longrightarrow>
            ''active'' \<in> set (el_classList (mw_elements
               (scroll 0 layout None viewports (setupScrollReveal False oid w0)) r)))
       \<and> (''active'' \<in> set (el_classList (mw_elements
               (intersections evs (setupScrollReveal False oid w0)) r)) \<longrightarrow>
            ''active'' \<in> set (el_classList (mw_elements
               (intersections later_evs (intersections evs (setupScrollReveal False oid w0))) r))
            \<and> ''active'' \<in> set (el_classList (mw_elements
               (scroll 0 layout previous viewports (intersections evs (setupScrollReveal False oid w0))) r)))"
proof -
  let ?w = "setupScrollReveal False oid w0"
  let ?io = "fold native_observe (reveal_elements w0)
      (new_IntersectionObserver revealCallback
         \<lparr>opt_threshold = Some (1 / 10), opt_rootMargin = Some ''0px 0px -100px 0px''\<rparr>)"
  have con: "constructed (mw_dom ?w) = [?io]"
    and els: "mw_elements ?w = mw_elements w0"
    using setupScrollReveal_observer[OF assms(1), of oid] by simp_all
  have cb: "io_callback ?io = revealCallback"
    and th: "io_threshold ?io = 1 / 10"
    and rm: "io_rootMargin ?io = ''0px 0px -100px 0px''"
    by (simp_all add: fold_native_observe new_IntersectionObserver_def)
  have "r \<in> set (reveal_elements w0)"
    using assms(2,3) by (simp add: reveal_elements_def)
  then have tg: "r \<in> set (io_targets ?io)"
    by (simp add: fold_native_observe)
  have rb: "rootBounds (io_rootMargin ?io) viewport = Some (viewport\<lparr>r_bottom := r_bottom viewport - 100\<rparr>)"
    unfolding rm by (rule reveal_rootBounds)
  have first: "\<exists>io. constructed (mw_dom ?w) = [io] \<and> io_callback io = revealCallback
      \<and> io_threshold io = 1 / 10 \<and> io_rootMargin io = ''0px 0px -100px 0px''
      \<and> rootBounds (io_rootMargin io) viewport = Some (viewport\<lparr>r_bottom := r_bottom viewport - 100\<rparr>)
      \<and> r \<in> set (io_targets io)"
    using con cb th rm rb tg by blast
  let ?w1 = "intersections evs ?w"
  have con1: "constructed (mw_dom ?w1) = [?io]" using con by simp
  have st1: "el_stagger (mw_elements ?w1 r) = el_stagger (mw_elements w0 r)"
    using intersections_reveal_only(1)[OF con cb, of evs r] els by simp
  have second: "''active'' \<in> set (el_classList (mw_elements (intersect 0 entries ?w1) r))
      \<and> (el_stagger (mw_elements w0 r) = Some (decimal k) \<longrightarrow>
           el_transitionDelay (mw_elements (intersect 0 entries ?w1) r) = decimal (k * 100) @ ''ms'')"
    if mem: "\<lparr>isIntersecting = True, entry_target = r\<rparr> \<in> set entries"
  proof -
    let ?es = "filter (\<lambda>e. entry_target e \<in> set (io_targets ?io)) entries"
    have run: "mw_elements (intersect 0 entries ?w1) = revealCallback ?es (mw_elements ?w1)"
      by (simp add: intersect_def con cb)
    from mem tg have m: "\<lparr>isIntersecting = True, entry_target = r\<rparr> \<in> set ?es" by simp
    have a: "''active'' \<in> set (el_classList (revealCallback ?es (mw_elements ?w1) r))"
      by (rule revealCallback_marks(1)[OF m]) simp_all
    have b: "el_transitionDelay (revealCallback ?es (mw_elements ?w1) r) = decimal (k * 100) @ ''ms''"
      if "el_stagger (mw_elements w0 r) = Some (decimal k)"
      by (rule revealCallback_marks(2)[OF m]) (simp_all add: st1 that)
    from a b show ?thesis unfolding run by blast
  qed
  have skip: "mw_elements (intersect 0 entries ?w1) r = mw_elements ?w1 r"
    if "\<forall>e \<in> set entries. entry_target e = r \<longrightarrow> \<not> isIntersecting e"
    using intersect_skips[OF con1 cb that] .
  have far: "mw_elements (scroll 0 layout None viewports ?w) r = mw_elements w0 r"
    if "\<forall>v \<in> set viewports. r_bottom v - 100 < r_top (layout r)"
    using scroll_skips[where layout = layout and r = r, OF con cb rm that] els by simp
  have near: "''active'' \<in> set (el_classList (mw_elements (scroll 0 layout None viewports ?w) r))"
    if "\<exists>v \<in> set viewports. is_intersecting (1 / 10) (v\<lparr>r_bottom := r_bottom v - 100\<rparr>) (layout r)"
    by (rule scroll_marks[where layout = layout and r = r, OF con cb rm th tg that]) simp
  have third: "''active'' \<in> set (el_classList (mw_elements (intersections later_evs ?w1) r))
      \<and> ''active'' \<in> set (el_classList (mw_elements (scroll 0 layout previous viewports ?w1) r))"
    if "''active'' \<in> set (el_classList (mw_elements ?w1 r))"
    using intersections_reveal_only(2)[OF con1 cb that] scroll_reveal_only(2)[OF con1 cb that]
    by blast
  from first second skip far near third show ?thesis by blast
qed

theorem reveal_on_first_intersection_witness:
  "7 \<in> set (mw_document
      \<lparr>mw_dom = new_DOMManager,
       mw_elements = (\<lambda>r. \<lparr>el_classList = [''feature-card'', ''reveal''],
           el_stagger = Some ''3'', el_opacity = '''', el_transform = '''',
           el_transition = '''', el_transitionDelay = '''', el_textContent = ''''\<rparr>),
       mw_document = [7], mw_observers = []\<rparr>)
   \<and> ''reveal'' \<in> set (el_classList (mw_elements
      \<lparr>mw_dom = new_DOMManager,
       mw_elements = (\<lambda>r. \<lparr>el_classList = [''feature-card'', ''reveal''],
           el_stagger = Some ''3'', el_opacity = '''', el_transform = '''',
           el_transition = '''', el_transitionDelay = '''', el_textContent = ''''\<rparr>),
       mw_document = [7], mw_observers = []\<rparr> 7))
   \<and> ''active'' \<in> set (el_classList (mw_elements
      (intersect 0 [\<lparr>isIntersecting = True, entry_target = 7\<rparr>]
        (intersections [(0, [\<lparr>isIntersecting = False, entry_target = 7\<rparr>])]
          (setupScrollReveal False ''observer_1_a''
             \<lparr>mw_dom = new_DOMManager,
              mw_elements = (\<lambda>r. \<lparr>el_classList = [''feature-card'', ''reveal''],
                  el_stagger = Some ''3'', el_opacity = '''', el_transform = '''',
                  el_transition = '''', el_transitionDelay = '''', el_textContent = ''''\<rparr>),
              mw_document = [7], mw_observers = []\<rparr>))) 7))
   \<and> el_transitionDelay (mw_elements
      (intersect 0 [\<lparr>isIntersecting = True, entry_target = 7\<rparr>]
        (intersections [(0, [\<lparr>isIntersecting = False, entry_target = 7\<rparr>])]
          (setupScrollReveal False ''observer_1_a''
             \<lparr>mw_dom = new_DOMManager,
              mw_elements = (\<lambda>r. \<lparr>el_classList = [''feature-card'', ''reveal''],
                  el_stagger = Some ''3'', el_opacity = '''', el_transform = '''',
                  el_transition = '''', el_transitionDelay = '''', el_textContent = ''''\<rparr>),
              mw_document = [7], mw_observers = []\<rparr>))) 7) = ''300ms''
   \<and> mw_elements
        (scroll 0 (\<lambda>r. \<lparr>r_left = 0, r_top = 850, r_right = 1000, r_bottom = 1050\<rparr>) None
           [\<lparr>r_left = 0, r_top = 0, r_right = 1000, r_bottom = 800\<rparr>,
            \<lparr>r_left = 0, r_top = 100, r_right = 1000, r_bottom = 900\<rparr>]
           (setupScrollReveal False ''observer_1_a''
              \<lparr>mw_dom = new_DOMManager,
               mw_elements = (\<lambda>r. \<lparr>el_classList = [''feature-card'', ''reveal''],
                   el_stagger = Some ''3'', el_opacity = '''', el_transform = '''',
                   el_transition = '''', el_transitionDelay = '''', el_textContent = ''''\<rparr>),
               mw_document = [7], mw_observers = []\<rparr>)) 7
      = \<lparr>el_classList = [''feature-card'', ''reveal''],
           el_stagger = Some ''3'', el_opacity = '''', el_transform = '''',
           el_transition = '''', el_transitionDelay = '''', el_textContent = ''''\<rparr>
   \<and> ''active'' \<in> set (el_classList (mw_elements
        (scroll 0 (\<lambda>r. \<lparr>r_left = 0, r_top = 850, r_right = 1000, r_bottom = 1050\<rparr>) None
           [\<lparr>r_left = 0, r_top = 0, r_right = 1000, r_bottom = 800\<rparr>,
            \<lparr>r_left = 0, r_top = 100, r_right = 1000, r_bottom = 900\<rparr>,
            \<lparr>r_left = 0, r_top = 170, r_right = 1000, r_bottom = 970\<rparr>,
            \<lparr>r_left = 0, r_top = 0, r_right = 1000, r_bottom = 800\<rparr>]
           (setupScrollReveal False ''observer_1_a''
              \<lparr>mw_dom = new_DOMManager,
               mw_elements = (\<lambda>r. \<lparr>el_classList = [''feature-card'', ''reveal''],
                   el_stagger = Some ''3'', el_opacity = '''', el_transform = '''',
                   el_transition = '''', el_transitionDelay = '''', el_textContent = ''''\<rparr>),
               mw_document = [7], mw_observers = []\<rparr>)) 7))"
proof -
  let ?w0 = "\<lparr>mw_dom = new_DOMManager,
      mw_elements = (\<lambda>r. \<lparr>el_classList = [''feature-card'', ''reveal''],
          el_stagger = Some ''3'', el_opacity = '''', el_transform = '''',
          el_transition = '''', el_transitionDelay = '''', el_textContent = ''''\<rparr>),
      mw_document = [7], mw_observers = []\<rparr>"
  let ?layout = "\<lambda>r :: nat. \<lparr>r_left = 0, r_top = 850, r_right = 1000, r_bottom = 1050\<rparr>"
  let ?v0 = "\<lparr>r_left = 0, r_top = 0, r_right = 1000, r_bottom = 800\<rparr>"
  let ?v1 = "\<lparr>r_left = 0, r_top = 100, r_right = 1000, r_bottom = 900\<rparr>"
  let ?v2 = "\<lparr>r_left = 0, r_top = 170, r_right = 1000, r_bottom = 970\<rparr>"
  have h1: "mw_dom ?w0 = new_DOMManager" by simp
  have h2: "7 \<in> set (mw_document ?w0)" by simp
  have h3: "''reveal'' \<in> set (el_classList (mw_elements ?w0 7))" by simp
  have d3: "decimal 3 = ''3''" by (simp add: decimal.simps)
  have d300: "decimal (3 * 100) = ''300''" by code_simp
  have mem: "\<lparr>isIntersecting = True, entry_target = 7\<rparr>
      \<in> set [\<lparr>isIntersecting = True, entry_target = 7\<rparr>]" by simp
  have st: "el_stagger (mw_elements ?w0 7) = Some (decimal 3)" by (simp add: d3)
  have far: "\<forall>v \<in> set [?v0, ?v1]. r_bottom v - 100 < r_top (?layout 7)" by simp
  have near: "\<exists>v \<in> set [?v0, ?v1, ?v2, ?v0].
      is_intersecting (1 / 10) (v\<lparr>r_bottom := r_bottom v - 100\<rparr>) (?layout 7)"
    by (simp add: is_intersecting_def meets_def intersectionRatio_def intersectionRect_def area_def)
  note a = reveal_on_first_intersection[OF h1 h2 h3,
      where oid = "''observer_1_a''" and entries = "[\<lparr>isIntersecting = True, entry_target = 7\<rparr>]"
        and evs = "[(0, [\<lparr>isIntersecting = False, entry_target = 7\<rparr>])]" and k = 3
        and later_evs = "[]" and layout = ?layout and viewports = "[?v0, ?v1]"]
  note b = reveal_on_first_intersection[OF h1 h2 h3,
      where oid = "''observer_1_a''" and entries = "[]" and evs = "[]" and k = 3
        and later_evs = "[]" and layout = ?layout and viewports = "[?v0, ?v1, ?v2, ?v0]"]
  from a mem st d300 have one: "''active'' \<in> set (el_classList (mw_elements
      (intersect 0 [\<lparr>isIntersecting = True, entry_target = 7\<rparr>]
        (intersections [(0, [\<lparr>isIntersecting = False, entry_target = 7\<rparr>])]
          (setupScrollReveal False ''observer_1_a'' ?w0))) 7))
     \<and> el_transitionDelay (mw_elements
      (intersect 0 [\<lparr>isIntersecting = True, entry_target = 7\<rparr>]
        (intersections [(0, [\<lparr>isIntersecting = False, entry_target = 7\<rparr>])]
          (setupScrollReveal False ''observer_1_a'' ?w0))) 7) = ''300ms''"
    by simp
  from a far have two: "mw_elements (scroll 0 ?layout None [?v0, ?v1]
      (setupScrollReveal False ''observer_1_a'' ?w0)) 7 = mw_elements ?w0 7"
    by blast
  from b near have three: "''active'' \<in> set (el_classList (mw_elements
      (scroll 0 ?layout None [?v0, ?v1, ?v2, ?v0] (setupScrollReveal False ''observer_1_a'' ?w0)) 7))"
    by blast
  from one two three h2 h3 show ?thesis by simp
qed

text \<open>
  C2, as stated, fails for scroll reveal and for slide up. With reduced motion
  \<open>setupScrollReveal\<close> returns at its guard, no observer exists, and an element flagged for
  reveal is not marked active even by an event that reports it as intersecting. And with
  reduced motion \<open>slideUp\<close> only adds the class \<open>active\<close>: an element whose inline styles
  are opacity 0 and transform \<open>translateY(30px)\<close> keeps them, where the animated slide ends
  with opacity 1 and transform \<open>translateY(0)\<close>.
\<close>

theorem reduced_motion_skips_reveal_and_slide_end:
  "''reveal'' \<in> set (el_classList (mw_elements
      \<lparr>mw_dom = new_DOMManager,
       mw_elements = (\<lambda>r. \<lparr>el_classList = [''feature-card'', ''reveal''],
           el_stagger = Some ''0'', el_opacity = '''', el_transform = '''',
           el_transition = '''', el_transitionDelay = '''', el_textContent = ''''\<rparr>),
       mw_document = [0], mw_observers = []\<rparr> 0))
   \<and> ''active'' \<notin> set (el_classList (mw_elements
      (intersections [(0, [\<lparr>isIntersecting = True, entry_target = 0\<rparr>])]
        (setupScrollReveal True ''observer_1_a''
           \<lparr>mw_dom = new_DOMManager,
            mw_elements = (\<lambda>r. \<lparr>el_classList = [''feature-card'', ''reveal''],
                el_stagger = Some ''0'', el_opacity = '''', el_transform = '''',
                el_transition = '''', el_transitionDelay = '''', el_textContent = ''''\<rparr>),
            mw_document = [0], mw_observers = []\<rparr>)) 0))
   \<and> constructed (mw_dom
        (setupScrollReveal True ''observer_1_a''
           \<lparr>mw_dom = new_DOMManager,
            mw_elements = (\<lambda>r. \<lparr>el_classList = [''feature-card'', ''reveal''],
                el_stagger = Some ''0'', el_opacity = '''', el_transform = '''',
                el_transition = '''', el_transitionDelay = '''', el_textContent = ''''\<rparr>),
            mw_document = [0], mw_observers = []\<rparr>)) = []
   \<and> slideUp True 400
        \<lparr>el_classList = [''panel''], el_stagger = None, el_opacity = ''0'',
         el_transform = ''translateY(30px)'', el_transition = '''', el_transitionDelay = '''',
         el_textContent = ''''\<rparr>
      = \<lparr>ef_element =
           \<lparr>el_classList = [''panel'', ''active''], el_stagger = None, el_opacity = ''0'',
            el_transform = ''translateY(30px)'', el_transition = '''', el_transitionDelay = '''',
            el_textContent = ''''\<rparr>,
         ef_frames = [], ef_timeouts = []\<rparr>
   \<and> settled (slideUp False 400
        \<lparr>el_classList = [''panel''], el_stagger = None, el_opacity = ''0'',
         el_transform = ''translateY(30px)'', el_transition = '''', el_transitionDelay = '''',
         el_textContent = ''''\<rparr>)
      = \<lparr>el_classList = [''panel''], el_stagger = None, el_opacity = ''1'',
         el_transform = ''translateY(0)'', el_transition = ''all 400ms ease'',
         el_transitionDelay = '''', el_textContent = ''''\<rparr>"
proof -
  have d: "decimal 400 = ''400''" by code_simp
  show ?thesis
    by (simp add: setupScrollReveal_def intersections_def intersect_def new_DOMManager_def
        slideUp_def addClass_def settled_def d)
qed

text \<open>
  C2, amended. With the reduced-motion flag set, fade in, fade out, slide up, scale and the
  counter return at once, having requested no animation frame and set no timeout. Fade in
  leaves opacity 1 and fade out opacity 0, scale leaves the final transform and the counter
  the target followed by the suffix: the states the animated paths settle in. Slide up does
  not set the state the animated slide settles in (transform \<open>translateY(0)\<close>, opacity 1):
  it adds the class \<open>active\<close> and leaves the inline styles as they are.
  \<open>setupScrollReveal\<close> does nothing at all: it creates no observer, and no intersection
  event changes the page afterwards.
\<close>

theorem reduced_motion_jumps_to_end:
  "fadeIn True d el = \<lparr>ef_element = el\<lparr>el_opacity := ''1''\<rparr>, ef_frames = [], ef_timeouts = []\<rparr>
   \<and> el_opacity (settled (fadeIn False d el)) = ''1''
   \<and> fadeOut True d el = \<lparr>ef_element = el\<lparr>el_opacity := ''0''\<rparr>, ef_frames = [], ef_timeouts = []\<rparr>
   \<and> el_opacity (settled (fadeOut False d el)) = ''0''
   \<and> slideUp True d el = \<lparr>ef_element = addClass ''active'' el, ef_frames = [], ef_timeouts = []\<rparr>
   \<and> el_opacity (ef_element (slideUp True d el)) = el_opacity el
   \<and> el_transform (ef_element (slideUp True d el)) = el_transform el
   \<and> ''active'' \<in> set (el_classList (ef_element (slideUp True d el)))
   \<and> el_opacity (settled (slideUp False d el)) = ''1''
   \<and> el_transform (settled (slideUp False d el)) = ''translateY(0)''
   \<and> scale True fromScale toScale d el
       = \<lparr>ef_element = el\<lparr>el_transform := ''scale('' @ toScale @ '')''\<rparr>, ef_frames = [], ef_timeouts = []\<rparr>
   \<and> el_transform (settled (scale False fromScale toScale d el)) = ''scale('' @ toScale @ '')''
   \<and> animateCounter True target suffix el = (el\<lparr>el_textContent := target @ suffix\<rparr>, False)
   \<and> setupScrollReveal True oid w = w
   \<and> intersections evs (setupScrollReveal True oid (w\<lparr>mw_dom := new_DOMManager\<rparr>))
       = w\<lparr>mw_dom := new_DOMManager\<rparr>"
proof -
  have "intersections evs (w\<lparr>mw_dom := new_DOMManager\<rparr>) = w\<lparr>mw_dom := new_DOMManager\<rparr>"
    unfolding intersections_def
    by (induction evs) (simp_all add: intersect_def new_DOMManager_def case_prod_unfold)
  then show ?thesis
    by (simp add: fadeIn_def fadeOut_def slideUp_def scale_def animateCounter_def
        setupScrollReveal_def settled_def addClass_def)
qed

section \<open>Properties of field validation\<close>

lemma regex_test_Lit:
  "regex_test (Lit a # items) s = (\<exists>t. s = a # t \<and> regex_test items t)"
  by (cases s) auto

lemma regex_test_Many1:
  "regex_test (Many1 p # items) s =
     (\<exists>a t. s = a @ t \<and> a \<noteq> [] \<and> list_all p a \<and> regex_test items t)"
proof (induction s)
  case Nil
  then show ?case by simp
next
  case (Cons c cs)
  show ?case
  proof
    assume "regex_test (Many1 p # items) (c # cs)"
    then have pc: "p c" and alt: "regex_test items cs \<or> regex_test (Many1 p # items) cs"
      by simp_all
    from alt show "\<exists>a t. c # cs = a @ t \<and> a \<noteq> [] \<and> list_all p a \<and> regex_test items t"
    proof
      assume "regex_test items cs"
      with pc have "c # cs = [c] @ cs \<and> [c] \<noteq> [] \<and> list_all p [c] \<and> regex_test items cs"
        by simp
      then show ?thesis by blast
    next
      assume "regex_test (Many1 p # items) cs"
      with Cons.IH obtain a t where "cs = a @ t" "list_all p a" "regex_test items t"
        by blast
      with pc have "c # cs = (c # a) @ t \<and> c # a \<noteq> [] \<and> list_all p (c # a) \<and> regex_test items t"
        by simp
      then show ?thesis by blast
    qed
  next
    assume "\<exists>a t. c # cs = a @ t \<and> a \<noteq> [] \<and> list_all p a \<and> regex_test items t"
    then obtain a t where s: "c # cs = a @ t" and ne: "a \<noteq> []" and pa: "list_all p a"
      and t: "regex_test items t"
      by blast
    from ne obtain a' where a: "a = c # a'" using s by (cases a) auto
    with s have cs: "cs = a' @ t" by simp
    from pa a have pc: "p c" and pa': "list_all p a'" by simp_all
    show "regex_test (Many1 p # items) (c # cs)"
    proof (cases "a' = []")
      case True
      with cs t pc show ?thesis by simp
    next
      case False
      with cs pa' t have "regex_test (Many1 p # items) cs"
        using Cons.IH by blast
      with pc show ?thesis by simp
    qed
  qed
qed

text \<open>The pattern of the source accepts exactly the strings the specification describes.\<close>

lemma emailRegex_is_spec_pattern: "regex_test emailRegex v = spec_email_pattern v"
proof -
  have "regex_test emailRegex v =
      (\<exists>a t1. v = a @ t1 \<and> a \<noteq> [] \<and> list_all not_space_or_at a \<and>
        (\<exists>t2. t1 = CHR ''@'' # t2 \<and>
          (\<exists>b t3. t2 = b @ t3 \<and> b \<noteq> [] \<and> list_all not_space_or_at b \<and>
            (\<exists>t4. t3 = CHR ''.'' # t4 \<and>
              (\<exists>c t5. t4 = c @ t5 \<and> c \<noteq> [] \<and> list_all not_space_or_at c \<and> t5 = [])))))"
    by (simp only: emailRegex_def regex_test_Many1 regex_test_Lit regex_test.simps(1))
  also have "\<dots> = spec_email_pattern v"
  proof
    assume "\<exists>a t1. v = a @ t1 \<and> a \<noteq> [] \<and> list_all not_space_or_at a \<and>
        (\<exists>t2. t1 = CHR ''@'' # t2 \<and>
          (\<exists>b t3. t2 = b @ t3 \<and> b \<noteq> [] \<and> list_all not_space_or_at b \<and>
            (\<exists>t4. t3 = CHR ''.'' # t4 \<and>
              (\<exists>c t5. t4 = c @ t5 \<and> c \<noteq> [] \<and> list_all not_space_or_at c \<and> t5 = []))))"
    then obtain a b c where "v = a @ CHR ''@'' # b @ CHR ''.'' # c @ []"
      and abc: "a \<noteq> []" "b \<noteq> []" "c \<noteq> []"
        "list_all not_space_or_at a" "list_all not_space_or_at b" "list_all not_space_or_at c"
      by blast
    then have "v = a @ ''@'' @ b @ ''.'' @ c" by simp
    with abc show "spec_email_pattern v"
      unfolding spec_email_pattern_def by blast
  next
    assume "spec_email_pattern v"
    then obtain a b c where "v = a @ ''@'' @ b @ ''.'' @ c"
      and abc: "a \<noteq> []" "b \<noteq> []" "c \<noteq> []"
        "list_all not_space_or_at a" "list_all not_space_or_at b" "list_all not_space_or_at c"
      unfolding spec_email_pattern_def by blast
    then have "v = a @ CHR ''@'' # b @ CHR ''.'' # c @ []" by simp
    with abc show "\<exists>a t1. v = a @ t1 \<and> a \<noteq> [] \<and> list_all not_space_or_at a \<and>
        (\<exists>t2. t1 = CHR ''@'' # t2 \<and>
          (\<exists>b t3. t2 = b @ t3 \<and> b \<noteq> [] \<and> list_all not_space_or_at b \<and>
            (\<exists>t4. t3 = CHR ''.'' # t4 \<and>
              (\<exists>c t5. t4 = c @ t5 \<and> c \<noteq> [] \<and> list_all not_space_or_at c \<and> t5 = []))))"
      by blast
  qed
  finally show ?thesis .
qed

lemma addClass_has: "c \<noteq> [] \<Longrightarrow> c \<in> set (el_classList (addClass c el))"
  by (simp add: addClass_def)

lemma removeClass_has_not: "c \<noteq> [] \<Longrightarrow> c \<notin> set (el_classList (removeClass c el))"
  by (simp add: removeClass_def)

lemma validateField_group:
  "field_group (snd (validateField f)) =
     (if fst (validateField f) then removeClass_opt ''error'' (field_group f)
      else addClass_opt ''error'' (field_group f))"
  by (simp add: validateField_def Let_def)

text \<open>
  C10. \<open>validateField\<close> is a total function of the field. Its result is false exactly when
  the field is required and its trimmed value is empty, or the field has type email and its
  trimmed value is not empty and does not have the shape: one or more characters other than
  space and \<open>@\<close>, then \<open>@\<close>, then one or more such characters, then a dot, then one or more
  such characters. A field of type email that is not required and is left empty is valid.
  When the field has no form group nothing changes; when it has one, the group has the class
  \<open>error\<close> after the call exactly when the result is false.
\<close>

theorem validateField_result:
  "fst (validateField f) =
     (\<not> ((field_required f \<and> trim (field_value f) = [])
         \<or> (field_type f = ''email'' \<and> trim (field_value f) \<noteq> []
             \<and> \<not> spec_email_pattern (trim (field_value f)))))
   \<and> (field_type f = ''email'' \<and> \<not> field_required f \<and> trim (field_value f) = []
        \<longrightarrow> fst (validateField f))
   \<and> (field_group f = None \<longrightarrow> snd (validateField f) = f)
   \<and> (field_group f = Some g \<longrightarrow>
        (\<exists>g'. field_group (snd (validateField f)) = Some g'
           \<and> (''error'' \<in> set (el_classList g')) = (\<not> fst (validateField f))))"
proof (intro conjI impI)
  show "fst (validateField f) =
     (\<not> ((field_required f \<and> trim (field_value f) = [])
         \<or> (field_type f = ''email'' \<and> trim (field_value f) \<noteq> []
             \<and> \<not> spec_email_pattern (trim (field_value f)))))"
    by (auto simp: validateField_def Let_def emailRegex_is_spec_pattern)
next
  assume "field_type f = ''email'' \<and> \<not> field_required f \<and> trim (field_value f) = []"
  then show "fst (validateField f)"
    by (simp add: validateField_def Let_def)
next
  assume "field_group f = None"
  then show "snd (validateField f) = f"
    by (simp add: validateField_def Let_def addClass_opt_def removeClass_opt_def)
next
  assume g: "field_group f = Some g"
  show "\<exists>g'. field_group (snd (validateField f)) = Some g'
      \<and> (''error'' \<in> set (el_classList g')) = (\<not> fst (validateField f))"
  proof (cases "fst (validateField f)")
    case True
    then have "field_group (snd (validateField f)) = Some (removeClass ''error'' g)"
      using g by (simp add: validateField_group removeClass_opt_def)
    with True show ?thesis by (simp add: removeClass_has_not)
  next
    case False
    then have "field_group (snd (validateField f)) = Some (addClass ''error'' g)"
      using g by (simp add: validateField_group addClass_opt_def)
    with False show ?thesis by (simp add: addClass_has)
  qed
qed

theorem validateField_result_witness:
  "trim (field_value
      \<lparr>field_value = ''  '', field_type = ''email'', field_required = False,
       field_group = Some \<lparr>el_classList = [''form-group'', ''error''], el_stagger = None,
         el_opacity = '''', el_transform = '''', el_transition = '''',
         el_transitionDelay = '''', el_textContent = ''''\<rparr>\<rparr>) = []
   \<and> fst (validateField
      \<lparr>field_value = ''  '', field_type = ''email'', field_required = False,
       field_group = Some \<lparr>el_classList = [''form-group'', ''error''], el_stagger = None,
         el_opacity = '''', el_transform = '''', el_transition = '''',
         el_transitionDelay = '''', el_textContent = ''''\<rparr>\<rparr>)
   \<and> (\<exists>g'. field_group (snd (validateField
      \<lparr>field_value = ''  '', field_type = ''email'', field_required = False,
       field_group = Some \<lparr>el_classList = [''form-group'', ''error''], el_stagger = None,
         el_opacity = '''', el_transform = '''', el_transition = '''',
         el_transitionDelay = '''', el_textContent = ''''\<rparr>\<rparr>)) = Some g'
        \<and> ''error'' \<notin> set (el_classList g'))"
proof -
  let ?g = "\<lparr>el_classList = [''form-group'', ''error''], el_stagger = None,
         el_opacity = '''', el_transform = '''', el_transition = '''',
         el_transitionDelay = '''', el_textContent = ''''\<rparr>"
  let ?f = "\<lparr>field_value = ''  '', field_type = ''email'', field_required = False,
       field_group = Some ?g\<rparr>"
  have t: "trim (field_value ?f) = []"
    by (simp add: trim_def is_space_def)
  have h: "field_type ?f = ''email'' \<and> \<not> field_required ?f \<and> trim (field_value ?f) = []"
    using t by simp
  have g: "field_group ?f = Some ?g" by simp
  note th = validateField_result[of ?f ?g]
  from th h have v: "fst (validateField ?f)" by blast
  from th g obtain g' where g': "field_group (snd (validateField ?f)) = Some g'"
    and e: "(''error'' \<in> set (el_classList g')) = (\<not> fst (validateField ?f))"
    by blast
  from e v have "''error'' \<notin> set (el_classList g')" by simp
  with g' have "\<exists>g'. field_group (snd (validateField ?f)) = Some g' \<and> ''error'' \<notin> set (el_classList g')"
    by blast
  with t v show ?thesis by blast
qed

end
